theory Spec2Isabelle
  imports
    Main
    "HOL-Library.AList"
    "HOL-Library.Char_ord"
    "HOL-Library.List_Lexorder"
begin

section \<open>Strings\<close>

text \<open>
  A JavaScript string is modelled as a \<^typ>\<open>string\<close>: the list of the bytes of its UTF-8
  encoding. A character outside ASCII is a sequence of bytes, and the characters that
  the methods used by \<^verbatim>\<open>gh-sync.mjs\<close> single out (line terminators, white space) are
  recognised by their byte sequences, which in well-formed UTF-8 occur only where the
  character stands. \<^verbatim>\<open>toLowerCase\<close> is modelled on the letters A-Z; the lower case of
  letters outside ASCII, among them U+0130 and U+212A whose lower case has an ASCII
  letter, is not modelled.
\<close>

definition LF :: char where
  "LF = CHR 0x0A"

definition CR :: char where
  "CR = CHR 0x0D"

definition is_upper :: "char \<Rightarrow> bool" where
  "is_upper c \<longleftrightarrow> (65::nat) \<le> of_char c \<and> of_char c \<le> (90::nat)"

definition lower_char :: "char \<Rightarrow> char" where
  "lower_char c = (if is_upper c then char_of (of_char c + (32::nat)) else c)"

definition toLowerCase :: "string \<Rightarrow> string" where
  "toLowerCase s = map lower_char s"

text \<open>\<^verbatim>\<open>s.startsWith(p)\<close>.\<close>

fun startsWith :: "string \<Rightarrow> string \<Rightarrow> bool" where
  "startsWith s [] = True"
| "startsWith [] (p # ps) = False"
| "startsWith (c # cs) (p # ps) = (c = p \<and> startsWith cs ps)"

text \<open>
  The line terminators of ECMAScript, which the dot of a regular expression does not
  match: LF, CR, U+2028 and U+2029.
\<close>

definition line_terminators :: "string list" where
  "line_terminators =
     [[LF], [CR], [CHR 0xE2, CHR 0x80, CHR 0xA8], [CHR 0xE2, CHR 0x80, CHR 0xA9]]"

definition line_terminator_at :: "string \<Rightarrow> bool" where
  "line_terminator_at s \<longleftrightarrow> list_ex (startsWith s) line_terminators"

text \<open>A string that \<^verbatim>\<open>.*\<close> matches as a whole: no line terminator stands in it.\<close>

fun single_line :: "string \<Rightarrow> bool" where
  "single_line [] = True"
| "single_line (c # cs) = (\<not> line_terminator_at (c # cs) \<and> single_line cs)"

text \<open>
  The white space \<^verbatim>\<open>trim\<close> removes: TAB, LF, VT, FF, CR, SPACE, U+00A0, U+1680,
  U+2000 to U+200A, U+2028, U+2029, U+202F, U+205F, U+3000 and U+FEFF.
\<close>

definition whitespace :: "string list" where
  "whitespace =
     [[CHR 0x09], [CHR 0x0A], [CHR 0x0B], [CHR 0x0C], [CHR 0x0D], [CHR 0x20],
      [CHR 0xC2, CHR 0xA0],
      [CHR 0xE1, CHR 0x9A, CHR 0x80],
      [CHR 0xE2, CHR 0x80, CHR 0x80], [CHR 0xE2, CHR 0x80, CHR 0x81],
      [CHR 0xE2, CHR 0x80, CHR 0x82], [CHR 0xE2, CHR 0x80, CHR 0x83],
      [CHR 0xE2, CHR 0x80, CHR 0x84], [CHR 0xE2, CHR 0x80, CHR 0x85],
      [CHR 0xE2, CHR 0x80, CHR 0x86], [CHR 0xE2, CHR 0x80, CHR 0x87],
      [CHR 0xE2, CHR 0x80, CHR 0x88], [CHR 0xE2, CHR 0x80, CHR 0x89],
      [CHR 0xE2, CHR 0x80, CHR 0x8A],
      [CHR 0xE2, CHR 0x80, CHR 0xA8], [CHR 0xE2, CHR 0x80, CHR 0xA9],
      [CHR 0xE2, CHR 0x80, CHR 0xAF],
      [CHR 0xE2, CHR 0x81, CHR 0x9F],
      [CHR 0xE3, CHR 0x80, CHR 0x80],
      [CHR 0xEF, CHR 0xBB, CHR 0xBF]]"

lemma startsWith_length: "startsWith s p \<Longrightarrow> length p \<le> length s"
  by (induction s p rule: startsWith.induct) simp_all

lemma find_prefix_shorter:
  "find (\<lambda>w. w \<noteq> [] \<and> startsWith s w) ws = Some w \<Longrightarrow> length (drop (length w) s) < length s"
proof -
  assume "find (\<lambda>w. w \<noteq> [] \<and> startsWith s w) ws = Some w"
  then have "w \<noteq> [] \<and> startsWith s w" by (induction ws) (auto split: if_splits)
  then have "0 < length w" and "length w \<le> length s" using startsWith_length by auto
  then show ?thesis unfolding length_drop by arith
qed

text \<open>Removing, from the left, every one of the strings \<open>ws\<close> that stands at the start.\<close>

function strip_leading :: "string list \<Rightarrow> string \<Rightarrow> string" where
  "strip_leading ws s =
     (case find (\<lambda>w. w \<noteq> [] \<and> startsWith s w) ws of
        None \<Rightarrow> s
      | Some w \<Rightarrow> strip_leading ws (drop (length w) s))"
  by pat_completeness auto
termination
  by (relation "measure (\<lambda>(ws, s). length s)") (auto dest: find_prefix_shorter)

declare strip_leading.simps [simp del]

definition trim :: "string \<Rightarrow> string" where
  "trim s = rev (strip_leading (map rev whitespace) (rev (strip_leading whitespace s)))"

text \<open>The character class \<^verbatim>\<open>[a-z0-9]\<close>.\<close>

definition is_slug_alnum :: "char \<Rightarrow> bool" where
  "is_slug_alnum c \<longleftrightarrow>
     ((97::nat) \<le> of_char c \<and> of_char c \<le> (122::nat)) \<or>
     ((48::nat) \<le> of_char c \<and> of_char c \<le> (57::nat))"

text \<open>\<^verbatim>\<open>s.endsWith(suffix)\<close>.\<close>

definition endsWith :: "string \<Rightarrow> string \<Rightarrow> bool" where
  "endsWith s suffix \<longleftrightarrow>
     length suffix \<le> length s \<and> drop (length s - length suffix) s = suffix"

text \<open>
  \<^verbatim>\<open>s.replace(pat, rep)\<close> with a string pattern: the first occurrence of \<open>pat\<close> is
  replaced, a string without an occurrence is returned unchanged.
\<close>

fun replace_first :: "string \<Rightarrow> string \<Rightarrow> string \<Rightarrow> string" where
  "replace_first [] pat rep = (if pat = [] then rep else [])"
| "replace_first (c # cs) pat rep =
     (if startsWith (c # cs) pat then rep @ drop (length pat) (c # cs)
      else c # replace_first cs pat rep)"

text \<open>\<^verbatim>\<open>s.split('T')[0]\<close>: the part of \<open>s\<close> before the first \<open>T\<close>.\<close>

definition split_T_head :: "string \<Rightarrow> string" where
  "split_T_head s = takeWhile (\<lambda>c. c \<noteq> CHR ''T'') s"

text \<open>
  Decimal rendering of an identifier in a template literal. An identifier is the
  \<^verbatim>\<open>parseInt\<close> of the argument, the number of an issue: a natural number, which below
  \<open>10\<^sup>2\<^sup>1\<close> is written with all its digits.
\<close>

definition digit_char :: "nat \<Rightarrow> char" where
  "digit_char d = char_of (48 + d)"

fun show_nat :: "nat \<Rightarrow> string" where
  "show_nat n = (if n < 10 then [digit_char n] else show_nat (n div 10) @ [digit_char (n mod 10)])"

declare show_nat.simps [simp del]

definition is_digit :: "char \<Rightarrow> bool" where
  "is_digit c \<longleftrightarrow> (48::nat) \<le> of_char c \<and> of_char c \<le> (57::nat)"

section \<open>Slug derivation\<close>

text \<open>
  \<^verbatim>\<open>
  function slugify(title) {
    return title
      .toLowerCase()
      .replace(/\[.*?\]/g, '')  // Remove [tags]
      .trim()
      .replace(/[^a-z0-9]+/g, '-')
      .replace(/^-|-$/g, '');
  }
  \<close>
\<close>

text \<open>
  The lazy match \<^verbatim>\<open>.*?\]\<close> after an opening bracket: the rest of the string after the
  first closing bracket, provided no line terminator comes before it (the dot does not
  match one).
\<close>

fun tag_rest :: "string \<Rightarrow> string option" where
  "tag_rest [] = None"
| "tag_rest (c # cs) =
     (if c = CHR '']'' then Some cs
      else if line_terminator_at (c # cs) then None
      else tag_rest cs)"

lemma tag_rest_length: "tag_rest cs = Some r \<Longrightarrow> length r < Suc (length cs)"
  by (induction cs) (auto split: if_splits)

text \<open>\<^verbatim>\<open>.replace(/\[.*?\]/g, '')\<close>: scan from the left, drop each match, go on after it.\<close>

function strip_tags :: "string \<Rightarrow> string" where
  "strip_tags [] = []"
| "strip_tags (c # cs) =
     (if c = CHR ''[''
      then (case tag_rest cs of
              Some r \<Rightarrow> strip_tags r
            | None \<Rightarrow> c # strip_tags cs)
      else c # strip_tags cs)"
  by pat_completeness auto
termination
  by (relation "measure length") (auto dest: tag_rest_length)

text \<open>\<^verbatim>\<open>.replace(/[^a-z0-9]+/g, '-')\<close>: each maximal run outside the class becomes one hyphen.\<close>

function hyphenate :: "string \<Rightarrow> string" where
  "hyphenate [] = []"
| "hyphenate (c # cs) =
     (if is_slug_alnum c then c # hyphenate cs
      else CHR ''-'' # hyphenate (dropWhile (\<lambda>x. \<not> is_slug_alnum x) cs))"
  by pat_completeness auto
termination
  by (relation "measure length") (auto simp: less_Suc_eq_le length_dropWhile_le)

text \<open>
  \<^verbatim>\<open>.replace(/^-|-$/g, '')\<close>: one hyphen at the start and one hyphen at the end are
  removed (the two matches never overlap).
\<close>

definition strip_edge_hyphens :: "string \<Rightarrow> string" where
  "strip_edge_hyphens s =
     (let s1 = (case s of [] \<Rightarrow> [] | c # cs \<Rightarrow> if c = CHR ''-'' then cs else s)
      in if s1 \<noteq> [] \<and> last s1 = CHR ''-'' then butlast s1 else s1)"

definition slugify :: "string \<Rightarrow> string" where
  "slugify title = strip_edge_hyphens (hyphenate (trim (strip_tags (toLowerCase title))))"

text \<open>
  The derivation rule in the order of the specification: strip the bracketed groups
  (everything from an opening bracket to the next closing bracket), trim, lower-case,
  collapse the runs, strip all the hyphens at the two ends.
\<close>

fun spec_tag_rest :: "string \<Rightarrow> string option" where
  "spec_tag_rest [] = None"
| "spec_tag_rest (c # cs) = (if c = CHR '']'' then Some cs else spec_tag_rest cs)"

lemma spec_tag_rest_length: "spec_tag_rest cs = Some r \<Longrightarrow> length r < Suc (length cs)"
  by (induction cs) (auto split: if_splits)

function spec_strip_tags :: "string \<Rightarrow> string" where
  "spec_strip_tags [] = []"
| "spec_strip_tags (c # cs) =
     (if c = CHR ''[''
      then (case spec_tag_rest cs of
              Some r \<Rightarrow> spec_strip_tags r
            | None \<Rightarrow> c # spec_strip_tags cs)
      else c # spec_strip_tags cs)"
  by pat_completeness auto
termination
  by (relation "measure length") (auto dest: spec_tag_rest_length)

definition spec_strip_hyphens :: "string \<Rightarrow> string" where
  "spec_strip_hyphens s =
     rev (dropWhile (\<lambda>c. c = CHR ''-'') (rev (dropWhile (\<lambda>c. c = CHR ''-'') s)))"

definition spec_slugify :: "string \<Rightarrow> string" where
  "spec_slugify title =
     spec_strip_hyphens (hyphenate (toLowerCase (trim (spec_strip_tags title))))"

text \<open>The shape of a slug: only \<^verbatim>\<open>[a-z0-9-]\<close>, no hyphen at either end, no two in a row.\<close>

fun no_double_hyphen :: "string \<Rightarrow> bool" where
  "no_double_hyphen (a # b # cs) = (\<not> (a = CHR ''-'' \<and> b = CHR ''-'') \<and> no_double_hyphen (b # cs))"
| "no_double_hyphen cs = True"

definition slug_shape :: "string \<Rightarrow> bool" where
  "slug_shape s \<longleftrightarrow>
     list_all (\<lambda>c. is_slug_alnum c \<or> c = CHR ''-'') s \<and>
     (s = [] \<or> (hd s \<noteq> CHR ''-'' \<and> last s \<noteq> CHR ''-'')) \<and>
     no_double_hyphen s"

section \<open>Body files\<close>

text \<open>
  \<^verbatim>\<open>
  function writeMd(filePath, content) {
    // Ensure content ends with newline
    const normalized = content.endsWith('\n') ? content : content + '\n';
    writeFileSync(filePath, normalized);
  }
  \<close>
  \<open>writeMd_content\<close> is the text handed to \<^verbatim>\<open>writeFileSync\<close>.
\<close>

definition writeMd_content :: "string \<Rightarrow> string" where
  "writeMd_content content = (if endsWith content [LF] then content else content @ [LF])"

text \<open>The number of newlines at the end of a text.\<close>

definition trailing_newlines :: "string \<Rightarrow> nat" where
  "trailing_newlines s = length (takeWhile (\<lambda>c. c = LF) (rev s))"

section \<open>Label differences\<close>

text \<open>
  \<^verbatim>\<open>
  const toAdd = targetLabels.filter(l => !currentLabels.includes(l));
  const toRemove = currentLabels.filter(l => !targetLabels.includes(l));
  \<close>
\<close>

definition toAdd :: "'a list \<Rightarrow> 'a list \<Rightarrow> 'a list" where
  "toAdd targetLabels currentLabels = filter (\<lambda>l. l \<notin> set currentLabels) targetLabels"

definition toRemove :: "'a list \<Rightarrow> 'a list \<Rightarrow> 'a list" where
  "toRemove targetLabels currentLabels = filter (\<lambda>l. l \<notin> set targetLabels) currentLabels"

section \<open>JSON values\<close>

text \<open>
  The values \<^verbatim>\<open>JSON.parse\<close> returns. A number is a double: a finite one is identified
  by the text \<^verbatim>\<open>String\<close> and \<^verbatim>\<open>JSON.stringify\<close> give it (the shortest decimal that
  reads back as the same double, in exponent form from \<open>10\<^sup>2\<^sup>1\<close> on; \<^verbatim>\<open>0\<close> and \<^verbatim>\<open>-0\<close>
  share the text \<^verbatim>\<open>0\<close> and nothing in this program tells them apart), and a literal
  beyond the range of a double, such as \<^verbatim>\<open>1e999\<close>, is read as \<^verbatim>\<open>Infinity\<close> or
  \<^verbatim>\<open>-Infinity\<close>. An object is the list of its entries in the order of enumeration, which
  is the order \<^verbatim>\<open>JSON.stringify\<close> writes them in.
\<close>

datatype jnumber = Finite string | PlusInfinity | MinusInfinity

datatype json =
    JNull
  | JBool bool
  | JNum jnumber
  | JStr string
  | JArr "json list"
  | JObj "(string \<times> json) list"

text \<open>Truthiness, as tested by \<^verbatim>\<open>if (v)\<close> and \<^verbatim>\<open>v || w\<close>.\<close>

fun truthy :: "json \<Rightarrow> bool" where
  "truthy JNull = False"
| "truthy (JBool b) = b"
| "truthy (JNum x) = (x \<noteq> Finite ''0'')"
| "truthy (JStr s) = (s \<noteq> [])"
| "truthy (JArr xs) = True"
| "truthy (JObj kvs) = True"

text \<open>
  \<^verbatim>\<open>a || b\<close> where \<open>a\<close> is the result of a property read: \<open>None\<close> is \<^verbatim>\<open>undefined\<close>.
\<close>

definition js_or :: "json option \<Rightarrow> json \<Rightarrow> json" where
  "js_or a b = (case a of None \<Rightarrow> b | Some v \<Rightarrow> if truthy v then v else b)"

datatype exn = SyntaxError | TypeError | ENOENT

text \<open>
  Reading properties of a parsed value \<^verbatim>\<open>localJson\<close>: \<^verbatim>\<open>null.key\<close> throws a
  \<^verbatim>\<open>TypeError\<close>, an object yields the entry or \<^verbatim>\<open>undefined\<close>, and a number, a boolean,
  a string or an array has none of the property names this program reads.
\<close>

fun props :: "json \<Rightarrow> exn + (string \<Rightarrow> json option)" where
  "props JNull = Inl TypeError"
| "props (JObj kvs) = Inr (map_of kvs)"
| "props v = Inr (\<lambda>k. None)"

text \<open>
  An object literal evaluates its entries from left to right: setting a key that is
  already there replaces the value in place, a new key goes to the end. Spreading an
  object sets its entries one by one.
\<close>

definition obj_set :: "string \<Rightarrow> json \<Rightarrow> (string \<times> json) list \<Rightarrow> (string \<times> json) list" where
  "obj_set k v kvs = AList.update k v kvs"

definition obj_spread :: "(string \<times> json) list \<Rightarrow> (string \<times> json) list \<Rightarrow> (string \<times> json) list" where
  "obj_spread src kvs = fold (\<lambda>(k, v). obj_set k v) src kvs"

definition fromEntries :: "(string \<times> json) list \<Rightarrow> (string \<times> json) list" where
  "fromEntries entries = obj_spread entries []"

fun join_strings :: "string \<Rightarrow> string list \<Rightarrow> string" where
  "join_strings sep [] = []"
| "join_strings sep [x] = x"
| "join_strings sep (x # y # ys) = x @ sep @ join_strings sep (y # ys)"

text \<open>The results of a list of conversions, or the first exception thrown.\<close>

fun all_right :: "('e + 'a) list \<Rightarrow> 'e + 'a list" where
  "all_right [] = Inr []"
| "all_right (Inl e # rs) = Inl e"
| "all_right (Inr x # rs) = (case all_right rs of Inl e \<Rightarrow> Inl e | Inr xs \<Rightarrow> Inr (x # xs))"

text \<open>
  \<^verbatim>\<open>String(v)\<close>, the conversion behind template literals, \<^verbatim>\<open>Array.prototype.join\<close> and the
  default order of \<^verbatim>\<open>Array.prototype.sort\<close>. An array is its elements joined by commas,
  with \<^verbatim>\<open>null\<close> elements empty. An object converts through the \<^verbatim>\<open>toString\<close> it inherits,
  unless it has an entry \<^verbatim>\<open>toString\<close> of its own: that is not a function, the inherited
  \<^verbatim>\<open>valueOf\<close> returns the object itself, and the conversion throws a \<^verbatim>\<open>TypeError\<close>.
\<close>

fun js_to_string :: "json \<Rightarrow> exn + string" where
  "js_to_string JNull = Inr ''null''"
| "js_to_string (JBool b) = Inr (if b then ''true'' else ''false'')"
| "js_to_string (JNum (Finite s)) = Inr s"
| "js_to_string (JNum PlusInfinity) = Inr ''Infinity''"
| "js_to_string (JNum MinusInfinity) = Inr ''-Infinity''"
| "js_to_string (JStr s) = Inr s"
| "js_to_string (JArr xs) =
     (case all_right (map (\<lambda>x. if x = JNull then Inr [] else js_to_string x) xs) of
        Inl e \<Rightarrow> Inl e
      | Inr strs \<Rightarrow> Inr (join_strings '','' strs))"
| "js_to_string (JObj kvs) =
     (if map_of kvs ''toString'' \<noteq> None then Inl TypeError else Inr ''[object Object]'')"

text \<open>\<^verbatim>\<open>xs.join(sep)\<close>.\<close>

definition js_join :: "string \<Rightarrow> json list \<Rightarrow> exn + string" where
  "js_join sep xs =
     (case all_right (map (\<lambda>x. if x = JNull then Inr [] else js_to_string x) xs) of
        Inl e \<Rightarrow> Inl e
      | Inr strs \<Rightarrow> Inr (join_strings sep strs))"

text \<open>
  \<^verbatim>\<open>xs.sort()\<close> without a comparator: a stable sort by the string conversion. An array
  of fewer than two elements is returned without a comparison; otherwise every element
  is compared, hence converted, and a conversion that throws ends the sort. \<open>text_of\<close>
  is the conversion of a value that converts. The texts are compared by their bytes,
  that is by code points; JavaScript compares UTF-16 code units, which orders a
  character above U+FFFF before one from U+E000 to U+FFFF. Nothing below depends on which
  of the two total orders is used, as long as both sides of a comparison use the same.
\<close>

definition text_of :: "json \<Rightarrow> string" where
  "text_of x = (case js_to_string x of Inl e \<Rightarrow> [] | Inr t \<Rightarrow> t)"

definition js_sort :: "json list \<Rightarrow> exn + json list" where
  "js_sort xs =
     (if length xs < 2 then Inr xs
      else (case all_right (map js_to_string xs) of
              Inl e \<Rightarrow> Inl e
            | Inr strs \<Rightarrow> Inr (sort_key text_of xs)))"

subsection \<open>Serialization\<close>

text \<open>
  \<^verbatim>\<open>
  function writeJson(filePath, data) {
    writeFileSync(filePath, JSON.stringify(data, null, 2) + '\n');
  }
  \<close>
  \<^verbatim>\<open>JSON.stringify\<close> writes a number that is not finite as \<^verbatim>\<open>null\<close>.
\<close>

definition hex_digit :: "nat \<Rightarrow> char" where
  "hex_digit d = (if d < 10 then char_of (48 + d) else char_of (87 + d))"

definition escape_char :: "char \<Rightarrow> string" where
  "escape_char c =
     (if c = CHR 0x22 then [CHR 0x5C, CHR 0x22]
      else if c = CHR 0x5C then [CHR 0x5C, CHR 0x5C]
      else if c = CHR 0x08 then [CHR 0x5C, CHR ''b'']
      else if c = CHR 0x09 then [CHR 0x5C, CHR ''t'']
      else if c = CHR 0x0A then [CHR 0x5C, CHR ''n'']
      else if c = CHR 0x0C then [CHR 0x5C, CHR ''f'']
      else if c = CHR 0x0D then [CHR 0x5C, CHR ''r'']
      else if (of_char c :: nat) < 32
        then [CHR 0x5C, CHR ''u'', CHR ''0'', CHR ''0'',
              hex_digit (of_char c div 16), hex_digit (of_char c mod 16)]
      else [c])"

definition quote :: "string \<Rightarrow> string" where
  "quote s = [CHR 0x22] @ concat (map escape_char s) @ [CHR 0x22]"

fun stringify_at :: "nat \<Rightarrow> json \<Rightarrow> string" where
  "stringify_at n JNull = ''null''"
| "stringify_at n (JBool b) = (if b then ''true'' else ''false'')"
| "stringify_at n (JNum (Finite s)) = s"
| "stringify_at n (JNum PlusInfinity) = ''null''"
| "stringify_at n (JNum MinusInfinity) = ''null''"
| "stringify_at n (JStr s) = quote s"
| "stringify_at n (JArr xs) =
     (if xs = [] then ''[]''
      else ''['' @ [LF] @
           join_strings ('','' @ [LF])
             (map (\<lambda>x. replicate (n + 2) CHR '' '' @ stringify_at (n + 2) x) xs) @
           [LF] @ replicate n CHR '' '' @ '']'')"
| "stringify_at n (JObj kvs) =
     (if kvs = [] then ''{}''
      else ''{'' @ [LF] @
           join_strings ('','' @ [LF])
             (map (\<lambda>(k, v). replicate (n + 2) CHR '' '' @ quote k @ '': '' @ stringify_at (n + 2) v) kvs) @
           [LF] @ replicate n CHR '' '' @ ''}'')"

definition writeJson_content :: "json \<Rightarrow> string" where
  "writeJson_content data = stringify_at 0 data @ [LF]"

text \<open>
  What \<^verbatim>\<open>JSON.parse\<close> reads from the text \<^verbatim>\<open>JSON.stringify\<close> wrote for a value: the value
  itself, with \<^verbatim>\<open>null\<close> where a number was not finite.
\<close>

fun reparse :: "json \<Rightarrow> json" where
  "reparse JNull = JNull"
| "reparse (JBool b) = JBool b"
| "reparse (JNum (Finite s)) = JNum (Finite s)"
| "reparse (JNum PlusInfinity) = JNull"
| "reparse (JNum MinusInfinity) = JNull"
| "reparse (JStr s) = JStr s"
| "reparse (JArr xs) = JArr (map reparse xs)"
| "reparse (JObj kvs) = JObj (map (\<lambda>(k, v). (k, reparse v)) kvs)"

section \<open>The issues directory\<close>

text \<open>
  The directory \<^verbatim>\<open>CONFIG.issuesDir\<close> is a list of named files; every path the program
  builds is \<^verbatim>\<open>join(CONFIG.issuesDir, name)\<close>, so a file is addressed by its name.
  \<^verbatim>\<open>readdirSync\<close> lists the names sorted by their bytes. A file is either
  \<open>JsonFile t v\<close>, a file with the text \<open>t\<close> that \<^verbatim>\<open>JSON.parse\<close> reads as the value \<open>v\<close>, or
  \<open>TextFile t\<close>, a file with the text \<open>t\<close>, which is taken not to parse as JSON.
\<close>

datatype file_data = JsonFile string json | TextFile string

type_synonym dir = "(string \<times> file_data) list"

definition file_text :: "file_data \<Rightarrow> string" where
  "file_text f = (case f of JsonFile t v \<Rightarrow> t | TextFile t \<Rightarrow> t)"

definition readdirSync :: "dir \<Rightarrow> string list" where
  "readdirSync d = sort (map fst d)"

definition existsSync :: "dir \<Rightarrow> string \<Rightarrow> bool" where
  "existsSync d name \<longleftrightarrow> map_of d name \<noteq> None"

definition writeFileSync :: "string \<Rightarrow> file_data \<Rightarrow> dir \<Rightarrow> dir" where
  "writeFileSync name f d = AList.update name f d"

text \<open>The file \<^verbatim>\<open>writeJson\<close> leaves for a value: the text written, and what it parses to.\<close>

definition json_file :: "json \<Rightarrow> file_data" where
  "json_file data = JsonFile (writeJson_content data) (reparse data)"

definition writeJson :: "string \<Rightarrow> json \<Rightarrow> dir \<Rightarrow> dir" where
  "writeJson name data d = writeFileSync name (json_file data) d"

definition writeMd :: "string \<Rightarrow> string \<Rightarrow> dir \<Rightarrow> dir" where
  "writeMd name content d = writeFileSync name (TextFile (writeMd_content content)) d"

text \<open>
  How a run ends early: \<^verbatim>\<open>process.exit(code)\<close> after the lines printed with
  \<^verbatim>\<open>console.error\<close>, or an exception nobody catches, which Node reports on standard
  error before it exits with status 1.
\<close>

datatype failure = Exit nat "string list" | Uncaught exn

fun exit_status :: "failure + 'a \<Rightarrow> nat" where
  "exit_status (Inr x) = 0"
| "exit_status (Inl (Exit code msgs)) = code"
| "exit_status (Inl (Uncaught e)) = 1"

definition readJson :: "dir \<Rightarrow> string \<Rightarrow> failure + json" where
  "readJson d name =
     (case map_of d name of
        None \<Rightarrow> Inl (Uncaught ENOENT)
      | Some (JsonFile t v) \<Rightarrow> Inr v
      | Some (TextFile t) \<Rightarrow> Inl (Uncaught SyntaxError))"

definition readMd :: "dir \<Rightarrow> string \<Rightarrow> failure + string" where
  "readMd d name =
     (case map_of d name of
        None \<Rightarrow> Inl (Uncaught ENOENT)
      | Some f \<Rightarrow> Inr (file_text f))"

subsection \<open>File discovery\<close>

text \<open>
  \<^verbatim>\<open>
  function findIssueFiles(issueNumber) {
    const files = readdirSync(CONFIG.issuesDir);
    const pattern = new RegExp(`^${issueNumber}-.*\\.json$`);
    const jsonFile = files.find(f => pattern.test(f));
    if (!jsonFile) {
      return null;
    }
    const mdFile = jsonFile.replace('.json', '.md');
    return {
      json: join(CONFIG.issuesDir, jsonFile),
      md: join(CONFIG.issuesDir, mdFile),
      slug: jsonFile.replace(/^\d+-/, '').replace('.json', '')
    };
  }
  \<close>
\<close>

record issue_files =
  json :: string
  md :: string
  slug :: string

text \<open>The test of \<^verbatim>\<open>^N-.*\.json$\<close>: the prefix, then no line terminator up to the extension.\<close>

definition pattern_test :: "nat \<Rightarrow> string \<Rightarrow> bool" where
  "pattern_test issueNumber f \<longleftrightarrow>
     startsWith f (show_nat issueNumber @ ''-'') \<and>
     (let rest = drop (length (show_nat issueNumber) + 1) f
      in endsWith rest ''.json'' \<and>
         single_line (take (length rest - 5) rest))"

text \<open>\<^verbatim>\<open>.replace(/^\d+-/, '')\<close>.\<close>

definition strip_number_prefix :: "string \<Rightarrow> string" where
  "strip_number_prefix f =
     (let r = dropWhile is_digit f
      in if takeWhile is_digit f \<noteq> [] \<and> r \<noteq> [] \<and> hd r = CHR ''-'' then tl r else f)"

definition findIssueFiles :: "dir \<Rightarrow> nat \<Rightarrow> issue_files option" where
  "findIssueFiles d issueNumber =
     (case find (pattern_test issueNumber) (readdirSync d) of
        None \<Rightarrow> None
      | Some jsonFile \<Rightarrow>
          Some \<lparr> json = jsonFile,
                 md = replace_first jsonFile ''.json'' ''.md'',
                 slug = replace_first (strip_number_prefix jsonFile) ''.json'' [] \<rparr>)"

section \<open>Configuration\<close>

definition CONFIG_repo :: string where
  "CONFIG_repo = ''michaelstingl/cnrz-ctt''"

text \<open>\<^verbatim>\<open>join(CONFIG.issuesDir, name)\<close> with \<^verbatim>\<open>issuesDir: './issues'\<close>.\<close>

definition issues_path :: "string \<Rightarrow> string" where
  "issues_path name = ''issues/'' @ name"

text \<open>Fields that exist only locally and should never be overwritten by pull.\<close>

definition localOnlyFields :: "string list" where
  "localOnlyFields =
     [''hub_projekt'', ''typ'', ''technologie_steckbrief'', ''related_issues'', ''body_file'']"

section \<open>The remote tracker\<close>

text \<open>
  The snapshot \<^verbatim>\<open>gh issue view --json\<close> returns, by the contract of the remote
  collaborator: \<open>labels\<close> holds the \<^verbatim>\<open>name\<close> of each label object, \<open>assignees\<close> the
  \<^verbatim>\<open>login\<close> of each user object, \<open>milestone\<close> the \<^verbatim>\<open>title\<close> of the milestone object or
  \<open>None\<close> for \<^verbatim>\<open>null\<close>, \<open>body\<close> the text or \<open>None\<close> for \<^verbatim>\<open>null\<close>; \<open>number\<close> is the number of
  the issue, a positive integer far below \<open>10\<^sup>2\<^sup>1\<close>.
\<close>

record gh_issue =
  number :: nat
  title :: string
  state :: string
  labels :: "string list"
  assignees :: "string list"
  milestone :: "string option"
  body :: "string option"
  createdAt :: string
  updatedAt :: string

text \<open>The commands the program runs through \<^verbatim>\<open>execSync\<close>.\<close>

datatype gh_cmd =
    IssueView nat
  | IssueViewLabels nat
  | IssueEdit nat "string option" "string option"
  | AddLabel nat string
  | RemoveLabel nat string

definition escape_quotes :: "string \<Rightarrow> string" where
  "escape_quotes s = concat (map (\<lambda>c. if c = CHR 0x22 then [CHR 0x5C, CHR 0x22] else [c]) s)"

definition in_quotes :: "string \<Rightarrow> string" where
  "in_quotes s = [CHR 0x22] @ s @ [CHR 0x22]"

fun cmd_text :: "gh_cmd \<Rightarrow> string" where
  "cmd_text (IssueView n) =
     ''gh issue view '' @ show_nat n @ '' --repo '' @ CONFIG_repo @
     '' --json number,title,state,labels,assignees,milestone,body,createdAt,updatedAt''"
| "cmd_text (IssueViewLabels n) =
     ''gh issue view '' @ show_nat n @ '' --repo '' @ CONFIG_repo @ '' --json labels''"
| "cmd_text (IssueEdit n t b) =
     ''gh issue edit '' @ show_nat n @ '' --repo '' @ CONFIG_repo @
     (case t of None \<Rightarrow> [] | Some x \<Rightarrow> '' --title '' @ in_quotes (escape_quotes x)) @
     (case b of None \<Rightarrow> [] | Some x \<Rightarrow> '' --body-file '' @ in_quotes x)"
| "cmd_text (AddLabel n ls) =
     ''gh issue edit '' @ show_nat n @ '' --repo '' @ CONFIG_repo @
     '' --add-label '' @ in_quotes ls"
| "cmd_text (RemoveLabel n l) =
     ''gh issue edit '' @ show_nat n @ '' --repo '' @ CONFIG_repo @
     '' --remove-label '' @ in_quotes l"

text \<open>A command that changes the remote issue.\<close>

fun is_update :: "gh_cmd \<Rightarrow> bool" where
  "is_update (IssueView n) = False"
| "is_update (IssueViewLabels n) = False"
| "is_update (IssueEdit n t b) = True"
| "is_update (AddLabel n ls) = True"
| "is_update (RemoveLabel n l) = True"

text \<open>
  What the external program answers: \<open>view\<close> is the snapshot of an issue, \<open>None\<close> when the
  command fails; \<open>edit_ok\<close> tells whether an edit command succeeds.
\<close>

record remote =
  view :: "nat \<Rightarrow> gh_issue option"
  edit_ok :: "gh_cmd \<Rightarrow> bool"

text \<open>
  \<^verbatim>\<open>
  function exec(cmd) {
    try {
      return execSync(cmd, { encoding: 'utf-8', maxBuffer: 10 * 1024 * 1024 });
    } catch (error) {
      console.error(`Command failed: ${cmd}`);
      console.error(error.message);
      process.exit(1);
    }
  }
  \<close>
  The second line printed is the message of the external error.
\<close>

definition command_failed :: "gh_cmd \<Rightarrow> failure" where
  "command_failed cmd = Exit 1 [''Command failed: '' @ cmd_text cmd]"

definition fetchIssue :: "remote \<Rightarrow> nat \<Rightarrow> failure + gh_issue" where
  "fetchIssue r issueNumber =
     (case view r issueNumber of
        None \<Rightarrow> Inl (command_failed (IssueView issueNumber))
      | Some ghIssue \<Rightarrow> Inr ghIssue)"

section \<open>Pull\<close>

text \<open>
  \<^verbatim>\<open>
  const merged = {
    issue_number: ghIssue.number,
    repo: CONFIG.repo,
    title: ghIssue.title,
    state: ghIssue.state.toLowerCase(),
    labels: ghIssue.labels.map(l => l.name),
    assignees: ghIssue.assignees.map(a => a.login),
    milestone: ghIssue.milestone?.title || null,
    // Preserve local-only fields
    ...Object.fromEntries(
      CONFIG.localOnlyFields
        .filter(f => localJson[f] !== undefined)
        .map(f => [f, localJson[f]])
    ),
    body_file: localJson.body_file || `${issueNumber}-${files.slug}.md`,
    created: ghIssue.createdAt.split('T')[0],
    updated: ghIssue.updatedAt.split('T')[0]
  };
  \<close>
\<close>

definition remote_fields :: "gh_issue \<Rightarrow> (string \<times> json) list" where
  "remote_fields ghIssue =
     [(''issue_number'', JNum (Finite (show_nat (number ghIssue)))),
      (''repo'', JStr CONFIG_repo),
      (''title'', JStr (title ghIssue)),
      (''state'', JStr (toLowerCase (state ghIssue))),
      (''labels'', JArr (map JStr (labels ghIssue))),
      (''assignees'', JArr (map JStr (assignees ghIssue))),
      (''milestone'',
         (case milestone ghIssue of
            None \<Rightarrow> JNull
          | Some t \<Rightarrow> if t = [] then JNull else JStr t))]"

definition local_only_entries :: "(string \<Rightarrow> json option) \<Rightarrow> (string \<times> json) list" where
  "local_only_entries p =
     map (\<lambda>f. (f, the (p f))) (filter (\<lambda>f. p f \<noteq> None) localOnlyFields)"

definition merged_entries ::
  "nat \<Rightarrow> issue_files \<Rightarrow> gh_issue \<Rightarrow> (string \<Rightarrow> json option) \<Rightarrow> (string \<times> json) list" where
  "merged_entries issueNumber files ghIssue p =
     obj_set ''updated'' (JStr (split_T_head (updatedAt ghIssue)))
       (obj_set ''created'' (JStr (split_T_head (createdAt ghIssue)))
          (obj_set ''body_file''
             (js_or (p ''body_file'') (JStr (show_nat issueNumber @ ''-'' @ slug files @ ''.md'')))
             (obj_spread (fromEntries (local_only_entries p)) (remote_fields ghIssue))))"

definition merged_json :: "nat \<Rightarrow> issue_files \<Rightarrow> gh_issue \<Rightarrow> json \<Rightarrow> failure + json" where
  "merged_json issueNumber files ghIssue localJson =
     (case props localJson of
        Inl e \<Rightarrow> Inl (Uncaught e)
      | Inr p \<Rightarrow> Inr (JObj (merged_entries issueNumber files ghIssue p)))"

text \<open>
  \<^verbatim>\<open>
  function pull(issueNumber) {
    const ghIssue = fetchIssue(issueNumber);
    let files = findIssueFiles(issueNumber);
    if (!files) {
      const slug = slugify(ghIssue.title);
      files = {
        json: join(CONFIG.issuesDir, `${issueNumber}-${slug}.json`),
        md: join(CONFIG.issuesDir, `${issueNumber}-${slug}.md`),
        slug
      };
    }
    let localJson = {};
    if (existsSync(files.json)) {
      localJson = readJson(files.json);
    }
    const merged = { ... };
    writeJson(files.json, merged);
    writeMd(files.md, ghIssue.body || '');
  }
  \<close>
  A pull that fails does so before it writes, so it returns the failure alone.
\<close>

definition new_files :: "nat \<Rightarrow> string \<Rightarrow> issue_files" where
  "new_files issueNumber s =
     \<lparr> json = show_nat issueNumber @ ''-'' @ s @ ''.json'',
       md = show_nat issueNumber @ ''-'' @ s @ ''.md'',
       slug = s \<rparr>"

definition pull_files :: "dir \<Rightarrow> nat \<Rightarrow> gh_issue \<Rightarrow> issue_files" where
  "pull_files d issueNumber ghIssue =
     (case findIssueFiles d issueNumber of
        Some files \<Rightarrow> files
      | None \<Rightarrow> new_files issueNumber (slugify (title ghIssue)))"

definition body_or_empty :: "gh_issue \<Rightarrow> string" where
  "body_or_empty ghIssue = (case body ghIssue of None \<Rightarrow> [] | Some b \<Rightarrow> b)"

definition pull :: "remote \<Rightarrow> dir \<Rightarrow> nat \<Rightarrow> failure + dir" where
  "pull r d issueNumber =
     (case fetchIssue r issueNumber of
        Inl e \<Rightarrow> Inl e
      | Inr ghIssue \<Rightarrow>
          (let files = pull_files d issueNumber ghIssue
           in case (if existsSync d (json files) then readJson d (json files) else Inr (JObj [])) of
                Inl e \<Rightarrow> Inl e
              | Inr localJson \<Rightarrow>
                  (case merged_json issueNumber files ghIssue localJson of
                     Inl e \<Rightarrow> Inl e
                   | Inr merged \<Rightarrow>
                       Inr (writeMd (md files) (body_or_empty ghIssue)
                              (writeJson (json files) merged d)))))"

section \<open>Push\<close>

text \<open>
  A run that talks to the remote returns how it ended together with the commands it
  issued, in order.
\<close>

type_synonym 'a run = "(failure + 'a) \<times> gh_cmd list"

text \<open>
  \<^verbatim>\<open>
  function syncLabels(issueNumber, targetLabels) {
    const result = exec(`gh issue view ${issueNumber} --repo ${CONFIG.repo} --json labels`);
    const currentLabels = JSON.parse(result).labels.map(l => l.name);
    const toAdd = targetLabels.filter(l => !currentLabels.includes(l));
    const toRemove = currentLabels.filter(l => !targetLabels.includes(l));
    if (toAdd.length > 0) {
      const addCmd = `gh issue edit ... --add-label "${toAdd.join(',')}"`;
      execSafe(addCmd);
    }
    for (const label of toRemove) {
      const removeCmd = `gh issue edit ... --remove-label "${label}"`;
      execSafe(removeCmd);
    }
  }
  \<close>
  \<^verbatim>\<open>execSafe\<close> swallows a failure, so the label commands are issued whatever they answer.
  A target that is not an array has no \<^verbatim>\<open>filter\<close> method, and \<^verbatim>\<open>join\<close> throws when a
  label to add does not convert to a string. The labels to remove are labels of the
  remote, which are strings.
\<close>

definition syncLabels :: "remote \<Rightarrow> nat \<Rightarrow> json \<Rightarrow> unit run" where
  "syncLabels r issueNumber targetLabels =
     (case view r issueNumber of
        None \<Rightarrow>
          (Inl (command_failed (IssueViewLabels issueNumber)), [IssueViewLabels issueNumber])
      | Some ghIssue \<Rightarrow>
          (let currentLabels = map JStr (labels ghIssue)
           in case targetLabels of
                JArr target \<Rightarrow>
                  (let removals = map (\<lambda>label. RemoveLabel issueNumber (text_of label))
                                    (toRemove target currentLabels)
                   in if toAdd target currentLabels \<noteq> []
                      then (case js_join '','' (toAdd target currentLabels) of
                              Inl e \<Rightarrow> (Inl (Uncaught e), [IssueViewLabels issueNumber])
                            | Inr joined \<Rightarrow>
                                (Inr (),
                                 [IssueViewLabels issueNumber, AddLabel issueNumber joined] @
                                 removals))
                      else (Inr (), [IssueViewLabels issueNumber] @ removals))
              | _ \<Rightarrow> (Inl (Uncaught TypeError), [IssueViewLabels issueNumber])))"

text \<open>
  \<^verbatim>\<open>
  function updateIssue(issueNumber, { title, bodyFile, labels }) {
    let cmd = `gh issue edit ${issueNumber} --repo ${CONFIG.repo}`;
    if (title) {
      cmd += ` --title "${title.replace(/"/g, '\\"')}"`;
    }
    if (bodyFile && existsSync(bodyFile)) {
      cmd += ` --body-file "${bodyFile}"`;
    }
    exec(cmd);
    if (labels) {
      syncLabels(issueNumber, labels);
    }
  }
  \<close>
  A truthy title that is not a string has no \<^verbatim>\<open>replace\<close> method.
\<close>

definition title_option :: "json option \<Rightarrow> exn + string option" where
  "title_option t =
     (case t of
        None \<Rightarrow> Inr None
      | Some v \<Rightarrow>
          if \<not> truthy v then Inr None
          else (case v of JStr x \<Rightarrow> Inr (Some x) | _ \<Rightarrow> Inl TypeError))"

definition updateIssue :: "remote \<Rightarrow> dir \<Rightarrow> nat \<Rightarrow> json option \<Rightarrow> string \<Rightarrow> json \<Rightarrow> unit run" where
  "updateIssue r d issueNumber t bodyFile lbls =
     (case title_option t of
        Inl e \<Rightarrow> (Inl (Uncaught e), [])
      | Inr topt \<Rightarrow>
          (let cmd = IssueEdit issueNumber topt
                       (if issues_path bodyFile \<noteq> [] \<and> existsSync d bodyFile
                        then Some (issues_path bodyFile) else None)
           in if \<not> edit_ok r cmd then (Inl (command_failed cmd), [cmd])
              else if truthy lbls
                then (case syncLabels r issueNumber lbls of (res, cmds) \<Rightarrow> (res, cmd # cmds))
                else (Inr (), [cmd])))"

text \<open>
  \<^verbatim>\<open>
  function push(issueNumber) {
    const files = findIssueFiles(issueNumber);
    if (!files) {
      console.error(`  [x] No local files found for issue #${issueNumber}`);
      process.exit(1);
    }
    const localJson = readJson(files.json);
    updateIssue(issueNumber, {
      title: localJson.title,
      bodyFile: files.md,
      labels: localJson.labels || []
    });
  }
  \<close>
  The mark printed before the message is U+2717. The lines printed after the update
  convert the title and the labels, which have been converted before when the update
  returns.
\<close>

definition push_no_files :: "nat \<Rightarrow> string" where
  "push_no_files issueNumber =
     [CHR 0x20, CHR 0x20, CHR 0xE2, CHR 0x9C, CHR 0x97] @
     '' No local files found for issue #'' @ show_nat issueNumber"

definition push :: "remote \<Rightarrow> dir \<Rightarrow> nat \<Rightarrow> unit run" where
  "push r d issueNumber =
     (case findIssueFiles d issueNumber of
        None \<Rightarrow> (Inl (Exit 1 [push_no_files issueNumber]), [])
      | Some files \<Rightarrow>
          (case readJson d (json files) of
             Inl e \<Rightarrow> (Inl e, [])
           | Inr localJson \<Rightarrow>
               (case props localJson of
                  Inl e \<Rightarrow> (Inl (Uncaught e), [])
                | Inr p \<Rightarrow>
                    updateIssue r d issueNumber (p ''title'') (md files)
                      (js_or (p ''labels'') (JArr [])))))"

section \<open>Diff\<close>

text \<open>
  \<^verbatim>\<open>
  function diff(issueNumber) {
    const files = findIssueFiles(issueNumber);
    if (!files) {
      console.error(`No local files found for issue #${issueNumber}`);
      process.exit(1);
    }
    const localJson = readJson(files.json);
    const localMd = readMd(files.md);
    const ghIssue = fetchIssue(issueNumber);
    const metaDiffs = [];
    if (localJson.title !== ghIssue.title) {
      metaDiffs.push({ field: 'title', local: localJson.title, github: ghIssue.title });
    }
    if (localJson.state !== ghIssue.state.toLowerCase()) {
      metaDiffs.push({ field: 'state', local: localJson.state, github: ghIssue.state.toLowerCase() });
    }
    const localLabels = (localJson.labels || []).sort();
    const ghLabels = ghIssue.labels.map(l => l.name).sort();
    const labelsAdded = localLabels.filter(l => !ghLabels.includes(l));
    const labelsRemoved = ghLabels.filter(l => !localLabels.includes(l));
    if (labelsAdded.length > 0 || labelsRemoved.length > 0) {
      metaDiffs.push({ field: 'labels', added: labelsAdded, removed: labelsRemoved });
    }
    const localBody = localMd.trim();
    const ghBody = (ghIssue.body || '').trim();
    const bodyDiffers = localBody !== ghBody;
    ...
  }
  \<close>
  The rest of the function (lines 310 to 342) prints the report with \<^verbatim>\<open>console.log\<close>
  unless local and remote are in sync. It converts, in template literals, the local
  value of a field that differs and the labels listed, and a conversion that throws ends
  the run; \<^verbatim>\<open>showLineDiff\<close> handles strings only. The text printed is not modelled:
  the report is the value of the run.
\<close>

datatype meta_diff =
    FieldDiff string "json option" string
  | LabelsDiff "json list" "json list"

record diff_report =
  metaDiffs :: "meta_diff list"
  bodyDiffers :: bool

definition diff_no_files :: "nat \<Rightarrow> string" where
  "diff_no_files issueNumber = ''No local files found for issue #'' @ show_nat issueNumber"

definition compare_issue :: "(string \<Rightarrow> json option) \<Rightarrow> string \<Rightarrow> gh_issue \<Rightarrow> exn + diff_report" where
  "compare_issue p localMd ghIssue =
     (case js_or (p ''labels'') (JArr []) of
        JArr ls \<Rightarrow>
          (case js_sort ls of
             Inl e \<Rightarrow> Inl e
           | Inr localLabels \<Rightarrow>
               (let ghLabels = map JStr (sort (labels ghIssue));
                    labelsAdded = filter (\<lambda>l. l \<notin> set ghLabels) localLabels;
                    labelsRemoved = filter (\<lambda>l. l \<notin> set localLabels) ghLabels
                in Inr \<lparr> metaDiffs =
                           (if p ''title'' \<noteq> Some (JStr (title ghIssue))
                            then [FieldDiff ''title'' (p ''title'') (title ghIssue)] else []) @
                           (if p ''state'' \<noteq> Some (JStr (toLowerCase (state ghIssue)))
                            then [FieldDiff ''state'' (p ''state'') (toLowerCase (state ghIssue))]
                            else []) @
                           (if labelsAdded \<noteq> [] \<or> labelsRemoved \<noteq> []
                            then [LabelsDiff labelsAdded labelsRemoved] else []),
                         bodyDiffers = (trim localMd \<noteq> trim (body_or_empty ghIssue)) \<rparr>))
      | _ \<Rightarrow> Inl TypeError)"

definition diff_in_sync :: "diff_report \<Rightarrow> bool" where
  "diff_in_sync report \<longleftrightarrow> metaDiffs report = [] \<and> \<not> bodyDiffers report"

text \<open>
  The values converted while a difference is printed: the local value of a field
  (\<^verbatim>\<open>undefined\<close> prints as such), the labels removed and the labels added.
\<close>

fun printed_values :: "meta_diff \<Rightarrow> json list" where
  "printed_values (FieldDiff field local github) = (case local of None \<Rightarrow> [] | Some v \<Rightarrow> [v])"
| "printed_values (LabelsDiff added removed) = removed @ added"

definition print_report :: "diff_report \<Rightarrow> exn + unit" where
  "print_report report =
     (if diff_in_sync report then Inr ()
      else (case all_right (map js_to_string (concat (map printed_values (metaDiffs report)))) of
              Inl e \<Rightarrow> Inl e
            | Inr strs \<Rightarrow> Inr ()))"

definition diff :: "remote \<Rightarrow> dir \<Rightarrow> nat \<Rightarrow> diff_report run" where
  "diff r d issueNumber =
     (case findIssueFiles d issueNumber of
        None \<Rightarrow> (Inl (Exit 1 [diff_no_files issueNumber]), [])
      | Some files \<Rightarrow>
          (case readJson d (json files) of
             Inl e \<Rightarrow> (Inl e, [])
           | Inr localJson \<Rightarrow>
               (case readMd d (md files) of
                  Inl e \<Rightarrow> (Inl e, [])
                | Inr localMd \<Rightarrow>
                    (case fetchIssue r issueNumber of
                       Inl e \<Rightarrow> (Inl e, [IssueView issueNumber])
                     | Inr ghIssue \<Rightarrow>
                         (case props localJson of
                            Inl e \<Rightarrow> (Inl (Uncaught e), [IssueView issueNumber])
                          | Inr p \<Rightarrow>
                              (case compare_issue p localMd ghIssue of
                                 Inl e \<Rightarrow> (Inl (Uncaught e), [IssueView issueNumber])
                               | Inr report \<Rightarrow>
                                   (case print_report report of
                                      Inl e \<Rightarrow> (Inl (Uncaught e), [IssueView issueNumber])
                                    | Inr u \<Rightarrow> (Inr report, [IssueView issueNumber]))))))))"

section \<open>Status\<close>

text \<open>
  \<^verbatim>\<open>
  const ghIssue = JSON.parse(result.output);
  const ghLabels = ghIssue.labels.map(l => l.name).sort();
  const localLabels = (localJson.labels || []).sort();
  const titleMatch = localJson.title === ghIssue.title;
  const labelsMatch = JSON.stringify(localLabels) === JSON.stringify(ghLabels);
  const stateMatch = localJson.state === ghIssue.state.toLowerCase();
  const inSync = titleMatch && labelsMatch && stateMatch;
  \<close>
  The remote labels are strings, and the text \<^verbatim>\<open>JSON.stringify\<close> gives for an array of
  strings is the text of no other array of JSON values, so the comparison of the two
  texts is the comparison of the two arrays.
\<close>

record status_report =
  titleMatch :: bool
  labelsMatch :: bool
  stateMatch :: bool
  inSync :: bool

definition status_check :: "json \<Rightarrow> gh_issue \<Rightarrow> exn + status_report" where
  "status_check localJson ghIssue =
     (case props localJson of
        Inl e \<Rightarrow> Inl e
      | Inr p \<Rightarrow>
          (case js_or (p ''labels'') (JArr []) of
             JArr ls \<Rightarrow>
               (case js_sort ls of
                  Inl e \<Rightarrow> Inl e
                | Inr localLabels \<Rightarrow>
                    (let ghLabels = map JStr (sort (labels ghIssue));
                         tm = (p ''title'' = Some (JStr (title ghIssue)));
                         lm = (localLabels = ghLabels);
                         sm = (p ''state'' = Some (JStr (toLowerCase (state ghIssue))))
                     in Inr \<lparr> titleMatch = tm, labelsMatch = lm, stateMatch = sm,
                              inSync = (tm \<and> lm \<and> sm) \<rparr>))
           | _ \<Rightarrow> Inl TypeError))"

text \<open>Comparison of two states without regard to case.\<close>

definition same_ignoring_case :: "string \<Rightarrow> string \<Rightarrow> bool" where
  "same_ignoring_case a b \<longleftrightarrow> toLowerCase a = toLowerCase b"

subsection \<open>Auxiliary notions\<close>

text \<open>The entries of the keys \<open>ks\<close> that a record has, in the order of \<open>ks\<close>.\<close>

definition entries_of :: "(string \<Rightarrow> json option) \<Rightarrow> string list \<Rightarrow> (string \<times> json) list" where
  "entries_of p ks = map (\<lambda>f. (f, the (p f))) (filter (\<lambda>f. p f \<noteq> None) ks)"

text \<open>The local-only fields other than \<^verbatim>\<open>body_file\<close>.\<close>

definition four_fields :: "string list" where
  "four_fields = [''hub_projekt'', ''typ'', ''technologie_steckbrief'', ''related_issues'']"


text \<open>A byte that lower-casing neither changes nor produces.\<close>

definition caseless :: "char \<Rightarrow> bool" where
  "caseless b \<longleftrightarrow> \<not> is_upper b \<and> \<not> (97 \<le> (of_char b :: nat) \<and> (of_char b :: nat) \<le> 122)"

text \<open>
  A value that converts to a string without an exception: any value but an object with an
  entry \<^verbatim>\<open>toString\<close> and an array that holds such an object. \<^verbatim>\<open>undefined\<close> converts too.
\<close>

definition converts :: "json \<Rightarrow> bool" where
  "converts v = (case js_to_string v of Inl e \<Rightarrow> False | Inr t \<Rightarrow> True)"

definition converts_if_present :: "json option \<Rightarrow> bool" where
  "converts_if_present v = (case v of None \<Rightarrow> True | Some w \<Rightarrow> converts w)"

subsection \<open>Example data\<close>

text \<open>
  A remote with issue 7, a directory that tracks it, and variations of both, for the
  concrete runs below.
\<close>

definition example_issue :: gh_issue where
  "example_issue =
     \<lparr> number = 7, title = ''[CTT] Kafka Migration'', state = ''OPEN'',
       labels = [''bug''], assignees = [''alice''], milestone = None,
       body = Some ''Body text'',
       createdAt = ''2024-01-02T03:04:05Z'', updatedAt = ''2024-02-03T04:05:06Z'' \<rparr>"

definition example_remote :: remote where
  "example_remote =
     \<lparr> view = (\<lambda>n. if n = 7 then Some example_issue else None),
       edit_ok = (\<lambda>c. True) \<rparr>"

definition tags_only_remote :: remote where
  "tags_only_remote =
     \<lparr> view = (\<lambda>n. if n = 7 then Some (example_issue \<lparr> title := ''[CTT] [Migration]'' \<rparr>)
                     else None),
       edit_ok = (\<lambda>c. True) \<rparr>"

definition example_dir :: dir where
  "example_dir =
     [(''7-kafka.json'',
         json_file (JObj [(''title'', JStr ''[CTT] Kafka''), (''state'', JStr ''open''),
                         (''labels'', JArr [JStr ''bug'']), (''typ'', JStr ''migration''),
                         (''body_file'', JStr ''7-kafka.md'')])),
      (''7-kafka.md'', TextFile (''Old text'' @ [LF]))]"

definition example_files :: issue_files where
  "example_files = \<lparr> json = ''7-kafka.json'', md = ''7-kafka.md'', slug = ''kafka'' \<rparr>"

definition example_pulled :: dir where
  "example_pulled =
     [(''7-kafka.json'',
         json_file (JObj [(''issue_number'', JNum (Finite ''7'')),
                         (''repo'', JStr ''michaelstingl/cnrz-ctt''),
                         (''title'', JStr ''[CTT] Kafka Migration''),
                         (''state'', JStr ''open''),
                         (''labels'', JArr [JStr ''bug'']),
                         (''assignees'', JArr [JStr ''alice'']),
                         (''milestone'', JNull),
                         (''typ'', JStr ''migration''),
                         (''body_file'', JStr ''7-kafka.md''),
                         (''created'', JStr ''2024-01-02''),
                         (''updated'', JStr ''2024-02-03'')])),
      (''7-kafka.md'', TextFile (''Body text'' @ [LF]))]"

definition falsy_body_file_dir :: dir where
  "falsy_body_file_dir =
     [(''7-kafka.json'',
         json_file (JObj [(''typ'', JStr ''migration''), (''body_file'', JStr [])]))]"

definition no_body_dir :: dir where
  "no_body_dir =
     [(''7-kafka.json'',
         json_file (JObj [(''title'', JStr ''Kafka''), (''labels'', JArr [JStr ''bug''])]))]"




text \<open>A metadata file with the text \<^verbatim>\<open>{"typ": 1e999}\<close>, and the directory after a pull.\<close>

definition overflow_typ_dir :: dir where
  "overflow_typ_dir =
     [(''7-kafka.json'',
         JsonFile (''{'' @ [CHR 0x22] @ ''typ'' @ [CHR 0x22] @ '': 1e999}'' @ [LF])
                  (JObj [(''typ'', JNum PlusInfinity)]))]"

definition overflow_typ_pulled :: dir where
  "overflow_typ_pulled =
     [(''7-kafka.json'',
         json_file (JObj [(''issue_number'', JNum (Finite ''7'')),
                         (''repo'', JStr ''michaelstingl/cnrz-ctt''),
                         (''title'', JStr ''[CTT] Kafka Migration''),
                         (''state'', JStr ''open''),
                         (''labels'', JArr [JStr ''bug'']),
                         (''assignees'', JArr [JStr ''alice'']),
                         (''milestone'', JNull),
                         (''typ'', JNum PlusInfinity),
                         (''body_file'', JStr ''7-kafka.md''),
                         (''created'', JStr ''2024-01-02''),
                         (''updated'', JStr ''2024-02-03'')])),
      (''7-kafka.md'', TextFile (''Body text'' @ [LF]))]"

text \<open>A record whose metadata file has the text \<^verbatim>\<open>null\<close>, with and without a body file.\<close>

definition null_dir :: dir where
  "null_dir =
     [(''7-kafka.json'', JsonFile (''null'' @ [LF]) JNull),
      (''7-kafka.md'', TextFile (''Body text'' @ [LF]))]"

definition null_no_body_dir :: dir where
  "null_no_body_dir = [(''7-kafka.json'', JsonFile (''null'' @ [LF]) JNull)]"

text \<open>A record whose labels are \<^verbatim>\<open>[{"toString": 1}, "a"]\<close>.\<close>

definition odd_labels_dir :: dir where
  "odd_labels_dir =
     [(''7-kafka.json'',
         json_file (JObj [(''title'', JStr ''[CTT] Kafka Migration''), (''state'', JStr ''open''),
                         (''labels'', JArr [JObj [(''toString'', JNum (Finite ''1''))],
                                            JStr ''a''])])),
      (''7-kafka.md'', TextFile (''Body text'' @ [LF]))]"

text \<open>A remote that answers no command.\<close>

definition failing_remote :: remote where
  "failing_remote = \<lparr> view = (\<lambda>n. None), edit_ok = (\<lambda>c. False) \<rparr>"

definition example_local :: json where
  "example_local =
     JObj [(''title'', JStr ''[CTT] Kafka Migration''), (''state'', JStr ''open''),
           (''labels'', JArr [JStr ''bug''])]"

definition upper_state_local :: json where
  "upper_state_local =
     JObj [(''title'', JStr ''[CTT] Kafka Migration''), (''state'', JStr ''OPEN''),
           (''labels'', JArr [JStr ''bug''])]"

section \<open>Properties of the body-file write\<close>

lemma endsWith_LF: "endsWith c [LF] \<longleftrightarrow> c \<noteq> [] \<and> last c = LF"
proof (cases c rule: rev_cases)
  case Nil
  then show ?thesis by (simp add: endsWith_def)
next
  case (snoc ys y)
  then show ?thesis by (simp add: endsWith_def)
qed

lemma trailing_newlines_snoc: "trailing_newlines (c @ [LF]) = Suc (trailing_newlines c)"
  by (simp add: trailing_newlines_def)

lemma trailing_newlines_pos: "c \<noteq> [] \<Longrightarrow> last c = LF \<Longrightarrow> 0 < trailing_newlines c"
  by (cases c rule: rev_cases) (simp_all add: trailing_newlines_def)

lemma trailing_newlines_zero: "\<not> (c \<noteq> [] \<and> last c = LF) \<Longrightarrow> trailing_newlines c = 0"
  by (cases c rule: rev_cases) (simp_all add: trailing_newlines_def)

lemma writeMd_content_newlines:
  "trailing_newlines (writeMd_content c) = max 1 (trailing_newlines c)"
proof (cases "endsWith c [LF]")
  case True
  then have "0 < trailing_newlines c" using trailing_newlines_pos by (simp add: endsWith_LF)
  with True show ?thesis by (simp add: writeMd_content_def max_def)
next
  case False
  then have "trailing_newlines c = 0" using trailing_newlines_zero by (simp add: endsWith_LF)
  with False show ?thesis by (simp add: writeMd_content_def trailing_newlines_snoc)
qed

lemma map_of_writeFileSync: "map_of (writeFileSync name f d) name = Some f"
  by (simp add: writeFileSync_def update_conv')

text \<open>
  C3 (as amended). The text \<^verbatim>\<open>writeMd\<close> leaves in the body file is the content itself when
  the content already ends with a newline and the content followed by one newline
  otherwise. The file therefore ends with at least one newline: with exactly one when the
  content ended with none or one, and with as many as the content had when it ended with
  more, since trailing newlines are never removed.
\<close>

theorem writeMd_trailing_newlines:
  "readMd (writeMd name c d) name = Inr (writeMd_content c) \<and>
   (writeMd_content c = c \<or> writeMd_content c = c @ [LF]) \<and>
   trailing_newlines (writeMd_content c) = max 1 (trailing_newlines c)"
  by (simp add: readMd_def writeMd_def map_of_writeFileSync file_text_def
      writeMd_content_newlines) (simp add: writeMd_content_def)

text \<open>
  C3 as stated fails: a content that ends with two newlines is written unchanged, so the
  file ends with two newlines, not with exactly one.
\<close>

theorem writeMd_two_newlines_counterexample:
  "readMd (writeMd ''1-a.md'' (''a'' @ [LF, LF]) []) ''1-a.md'' = Inr (''a'' @ [LF, LF]) \<and>
   trailing_newlines (''a'' @ [LF, LF]) = 2"
  by code_simp

section \<open>Properties of the label difference\<close>

lemma all_right_Inr: "all_right (map Inr xs) = Inr xs"
  by (induction xs) simp_all

lemma join_strings_JStr: "js_join sep (map JStr xs) = Inr (join_strings sep xs)"
proof -
  have "map (\<lambda>x. if x = JNull then Inr [] else js_to_string x) (map JStr xs) = map Inr xs"
    by simp
  then show ?thesis by (simp add: js_join_def all_right_Inr del: map_map)
qed

lemma text_of_JStr: "map (\<lambda>label. RemoveLabel n (text_of label)) (map JStr xs) = map (RemoveLabel n) xs"
  by (simp add: text_of_def)

lemma toAdd_JStr: "toAdd (map JStr L) (map JStr R) = map JStr (toAdd L R)"
  by (induction L) (auto simp: toAdd_def)

lemma toRemove_JStr: "toRemove (map JStr L) (map JStr R) = map JStr (toRemove L R)"
  by (induction R) (auto simp: toRemove_def)

lemma syncLabels_strings:
  assumes "view r n = Some g"
  shows "syncLabels r n (JArr (map JStr L)) =
     (Inr (),
      [IssueViewLabels n] @
      (if toAdd L (labels g) \<noteq> [] then [AddLabel n (join_strings '','' (toAdd L (labels g)))] else []) @
      map (RemoveLabel n) (toRemove L (labels g)))"
  using assms
  by (simp add: syncLabels_def Let_def toAdd_JStr toRemove_JStr join_strings_JStr text_of_JStr
      del: map_map)


text \<open>
  C5. For a local label list \<open>L\<close> and a remote label list \<open>R\<close>, the labels to add are, as
  a set, \<open>L - R\<close>, the labels to remove are \<open>R - L\<close>, and adding the former to \<open>R\<close> and
  removing the latter yields exactly the set of \<open>L\<close>. The label synchronization issues
  one command that adds the former (none when there is nothing to add) and one command
  for each of the latter, computed against the labels the remote reports.
\<close>

theorem label_diff_sets:
  "set (toAdd L R) = set L - set R \<and>
   set (toRemove L R) = set R - set L \<and>
   (set R \<union> set (toAdd L R)) - set (toRemove L R) = set L \<and>
   (view r n = Some g \<longrightarrow>
      syncLabels r n (JArr (map JStr L)) =
        (Inr (),
         [IssueViewLabels n] @
         (if toAdd L (labels g) \<noteq> []
          then [AddLabel n (join_strings '','' (toAdd L (labels g)))] else []) @
         map (RemoveLabel n) (toRemove L (labels g))))"
proof -
  have "set (toAdd L R) = set L - set R" and "set (toRemove L R) = set R - set L"
    by (auto simp: toAdd_def toRemove_def)
  moreover have "(set R \<union> set (toAdd L R)) - set (toRemove L R) = set L"
    by (auto simp: toAdd_def toRemove_def)
  ultimately show ?thesis using syncLabels_strings[of r n g L] by simp
qed

text \<open>Local labels \<^verbatim>\<open>infra\<close>, \<^verbatim>\<open>kafka\<close> against the remote label \<^verbatim>\<open>bug\<close> of issue 7.\<close>

theorem label_diff_sets_witness:
  "toAdd [''infra'', ''kafka''] (labels example_issue) = [''infra'', ''kafka''] \<and>
   toRemove [''infra'', ''kafka''] (labels example_issue) = [''bug''] \<and>
   syncLabels example_remote 7 (JArr [JStr ''infra'', JStr ''kafka'']) =
     (Inr (), [IssueViewLabels 7, AddLabel 7 ''infra,kafka'', RemoveLabel 7 ''bug''])"
proof -
  have g: "view example_remote 7 = Some example_issue" by (simp add: example_remote_def)
  have a: "toAdd [''infra'', ''kafka''] (labels example_issue) = [''infra'', ''kafka'']"
    by code_simp
  have b: "toRemove [''infra'', ''kafka''] (labels example_issue) = [''bug'']"
    by code_simp
  from label_diff_sets[of "[''infra'', ''kafka'']" "labels example_issue" example_remote 7
      example_issue] g a b
  show ?thesis by simp
qed

section \<open>Properties of the slug derivation\<close>

lemma hyphen_not_alnum: "\<not> is_slug_alnum (CHR ''-'')"
  by (simp add: is_slug_alnum_def)

lemma hyphenate_chars: "list_all (\<lambda>c. is_slug_alnum c \<or> c = CHR ''-'') (hyphenate s)"
  by (induction s rule: hyphenate.induct) simp_all

lemma no_double_hyphen_Cons:
  "no_double_hyphen (c # s) \<longleftrightarrow>
     (s = [] \<or> (\<not> (c = CHR ''-'' \<and> hd s = CHR ''-'') \<and> no_double_hyphen s))"
  by (cases s) auto

lemma no_double_hyphen_snoc:
  "no_double_hyphen (s @ [c]) \<longleftrightarrow>
     (s = [] \<or> (\<not> (last s = CHR ''-'' \<and> c = CHR ''-'') \<and> no_double_hyphen s))"
  by (induction s rule: no_double_hyphen.induct) auto

lemma hyphenate_hd:
  "s = [] \<or> is_slug_alnum (hd s) \<Longrightarrow> hyphenate s = [] \<or> hd (hyphenate s) \<noteq> CHR ''-''"
  by (cases s) (auto simp: hyphen_not_alnum)

lemma hyphenate_no_double_hyphen: "no_double_hyphen (hyphenate s)"
proof (induction s rule: hyphenate.induct)
  case 1
  then show ?case by simp
next
  case (2 c cs)
  show ?case
  proof (cases "is_slug_alnum c")
    case True
    with 2 show ?thesis by (auto simp: no_double_hyphen_Cons hyphen_not_alnum)
  next
    case False
    let ?r = "dropWhile (\<lambda>x. \<not> is_slug_alnum x) cs"
    have "?r = [] \<or> is_slug_alnum (hd ?r)"
      using hd_dropWhile[of "\<lambda>x. \<not> is_slug_alnum x" cs] by auto
    then have "hyphenate ?r = [] \<or> hd (hyphenate ?r) \<noteq> CHR ''-''" by (rule hyphenate_hd)
    with 2 False show ?thesis by (auto simp: no_double_hyphen_Cons)
  qed
qed

lemma strip_edge_hyphens_shape:
  assumes "list_all (\<lambda>c. is_slug_alnum c \<or> c = CHR ''-'') s" and "no_double_hyphen s"
  shows "slug_shape (strip_edge_hyphens s)"
proof -
  define s1 where "s1 = (case s of [] \<Rightarrow> [] | c # cs \<Rightarrow> if c = CHR ''-'' then cs else s)"
  have a1: "list_all (\<lambda>c. is_slug_alnum c \<or> c = CHR ''-'') s1"
    using assms(1) by (cases s) (auto simp: s1_def)
  have n1: "no_double_hyphen s1"
    using assms(2) by (cases s) (auto simp: s1_def no_double_hyphen_Cons)
  have h1: "s1 = [] \<or> hd s1 \<noteq> CHR ''-''"
    using assms(2) by (cases s) (auto simp: s1_def no_double_hyphen_Cons)
  have res: "strip_edge_hyphens s = (if s1 \<noteq> [] \<and> last s1 = CHR ''-'' then butlast s1 else s1)"
    by (simp add: strip_edge_hyphens_def s1_def)
  show ?thesis
  proof (cases "s1 \<noteq> [] \<and> last s1 = CHR ''-''")
    case False
    with a1 n1 h1 res show ?thesis by (auto simp: slug_shape_def)
  next
    case True
    then obtain ys where ys: "s1 = ys @ [CHR ''-'']" by (metis append_butlast_last_id)
    have "list_all (\<lambda>c. is_slug_alnum c \<or> c = CHR ''-'') ys" using a1 ys by simp
    moreover have "no_double_hyphen ys" using n1 ys by (auto simp: no_double_hyphen_snoc)
    moreover have "ys = [] \<or> last ys \<noteq> CHR ''-''" using n1 ys by (auto simp: no_double_hyphen_snoc)
    moreover have "ys = [] \<or> hd ys \<noteq> CHR ''-''" using h1 ys by (cases ys) auto
    ultimately show ?thesis using res True ys by (auto simp: slug_shape_def)
  qed
qed

lemma dropWhile_hyphen_id: "s = [] \<or> hd s \<noteq> CHR ''-'' \<Longrightarrow> dropWhile (\<lambda>c. c = CHR ''-'') s = s"
  by (cases s) auto

lemma strip_edge_is_spec:
  assumes "no_double_hyphen s"
  shows "strip_edge_hyphens s = spec_strip_hyphens s"
proof -
  define s1 where "s1 = (case s of [] \<Rightarrow> [] | c # cs \<Rightarrow> if c = CHR ''-'' then cs else s)"
  have n1: "no_double_hyphen s1"
    using assms by (cases s) (auto simp: s1_def no_double_hyphen_Cons)
  have h1: "s1 = [] \<or> hd s1 \<noteq> CHR ''-''"
    using assms by (cases s) (auto simp: s1_def no_double_hyphen_Cons)
  have lead: "dropWhile (\<lambda>c. c = CHR ''-'') s = s1"
    using dropWhile_hyphen_id[OF h1] by (cases s) (auto simp: s1_def)
  have res: "strip_edge_hyphens s = (if s1 \<noteq> [] \<and> last s1 = CHR ''-'' then butlast s1 else s1)"
    by (simp add: strip_edge_hyphens_def s1_def)
  have "rev (dropWhile (\<lambda>c. c = CHR ''-'') (rev s1)) =
        (if s1 \<noteq> [] \<and> last s1 = CHR ''-'' then butlast s1 else s1)"
  proof (cases s1 rule: rev_cases)
    case Nil
    then show ?thesis by simp
  next
    case (snoc ys y)
    show ?thesis
    proof (cases "y = CHR ''-''")
      case False
      with snoc show ?thesis by simp
    next
      case True
      with n1 snoc have "ys = [] \<or> last ys \<noteq> CHR ''-''" by (auto simp: no_double_hyphen_snoc)
      then have "rev ys = [] \<or> hd (rev ys) \<noteq> CHR ''-''" by (auto simp: hd_rev)
      then have "dropWhile (\<lambda>c. c = CHR ''-'') (rev ys) = rev ys" by (rule dropWhile_hyphen_id)
      with snoc True show ?thesis by simp
    qed
  qed
  with res lead show ?thesis by (simp add: spec_strip_hyphens_def)
qed

lemma slugify_shape: "slug_shape (slugify t)"
  unfolding slugify_def by (rule strip_edge_hyphens_shape[OF hyphenate_chars hyphenate_no_double_hyphen])

lemma of_char_lower: "is_upper c \<Longrightarrow> of_char (lower_char c) = (of_char c + 32 :: nat)"
  by (simp add: lower_char_def is_upper_def)

lemma lower_char_eq_iff:
  assumes "\<not> is_upper k" and "\<not> (97 \<le> (of_char k :: nat) \<and> (of_char k :: nat) \<le> 122)"
  shows "lower_char c = k \<longleftrightarrow> c = k"
proof (cases "is_upper c")
  case False
  then show ?thesis by (simp add: lower_char_def)
next
  case True
  then have "(of_char (lower_char c) :: nat) = of_char c + 32" by (rule of_char_lower)
  with True assms show ?thesis by (auto simp: is_upper_def)
qed

lemma lower_bracket_open: "lower_char c = CHR ''['' \<longleftrightarrow> c = CHR ''[''"
  by (rule lower_char_eq_iff) (simp_all add: is_upper_def)

lemma lower_bracket_close: "lower_char c = CHR '']'' \<longleftrightarrow> c = CHR '']''"
  by (rule lower_char_eq_iff) (simp_all add: is_upper_def)

lemma startsWith_lower:
  assumes "\<forall>b \<in> set w. caseless b"
  shows "startsWith (map lower_char s) w \<longleftrightarrow> startsWith s w"
  using assms
proof (induction s w rule: startsWith.induct)
  case (3 c cs p ps)
  then have "lower_char c = p \<longleftrightarrow> c = p"
    by (intro lower_char_eq_iff) (simp_all add: caseless_def)
  with 3 show ?case by simp
qed simp_all

lemma caseless_line_terminators: "\<forall>w \<in> set line_terminators. \<forall>b \<in> set w. caseless b"
  by (simp add: line_terminators_def caseless_def is_upper_def LF_def CR_def)

lemma caseless_whitespace: "\<forall>w \<in> set whitespace. \<forall>b \<in> set w. caseless b"
  by (simp add: whitespace_def caseless_def is_upper_def)

lemma line_terminator_at_lower:
  "line_terminator_at (map lower_char s) \<longleftrightarrow> line_terminator_at s"
proof -
  have "startsWith (map lower_char s) w \<longleftrightarrow> startsWith s w" if "w \<in> set line_terminators" for w
  proof -
    have "\<forall>b \<in> set w. caseless b" using caseless_line_terminators that by (rule bspec)
    then show ?thesis by (rule startsWith_lower)
  qed
  then show ?thesis by (simp add: line_terminator_at_def list_ex_iff)
qed

lemma single_line_lower: "single_line (map lower_char s) \<longleftrightarrow> single_line s"
proof (induction s)
  case Nil
  then show ?case by simp
next
  case (Cons c cs)
  have "line_terminator_at (lower_char c # map lower_char cs) \<longleftrightarrow> line_terminator_at (c # cs)"
    using line_terminator_at_lower[of "c # cs"] by simp
  with Cons show ?case by simp
qed

lemma strip_leading_lower:
  assumes "\<forall>w \<in> set ws. \<forall>b \<in> set w. caseless b"
  shows "strip_leading ws (map lower_char s) = map lower_char (strip_leading ws s)"
  using assms
proof (induction ws s rule: strip_leading.induct)
  case (1 ws s)
  note cl = "1.prems"
  have same: "find (\<lambda>w. w \<noteq> [] \<and> startsWith (map lower_char s) w) ws =
        find (\<lambda>w. w \<noteq> [] \<and> startsWith s w) ws"
  proof (rule find_cong[OF refl])
    fix w assume w: "w \<in> set ws"
    have "\<forall>b \<in> set w. caseless b" using cl w by (rule bspec)
    then have "startsWith (map lower_char s) w \<longleftrightarrow> startsWith s w" by (rule startsWith_lower)
    then show "(w \<noteq> [] \<and> startsWith (map lower_char s) w) = (w \<noteq> [] \<and> startsWith s w)"
      by simp
  qed
  show ?case
  proof (cases "find (\<lambda>w. w \<noteq> [] \<and> startsWith s w) ws")
    case None
    with same show ?thesis
      by (subst strip_leading.simps, subst (2) strip_leading.simps) simp
  next
    case (Some w)
    have "strip_leading ws (map lower_char s) = strip_leading ws (drop (length w) (map lower_char s))"
      using same Some by (subst strip_leading.simps) simp
    also have "\<dots> = strip_leading ws (map lower_char (drop (length w) s))"
      by (simp add: drop_map)
    also have "\<dots> = map lower_char (strip_leading ws (drop (length w) s))"
      using "1.IH"[OF Some cl] .
    also have "strip_leading ws (drop (length w) s) = strip_leading ws s"
      using Some by (subst (2) strip_leading.simps) simp
    finally show ?thesis .
  qed
qed

lemma trim_toLowerCase: "trim (toLowerCase s) = toLowerCase (trim s)"
proof -
  have r: "\<forall>w \<in> set (map rev whitespace). \<forall>b \<in> set w. caseless b"
    using caseless_whitespace by auto
  show ?thesis
    by (simp add: trim_def toLowerCase_def strip_leading_lower[OF caseless_whitespace]
        strip_leading_lower[OF r] rev_map)
qed

lemma spec_tag_rest_lower:
  "spec_tag_rest (map lower_char cs) = map_option (map lower_char) (spec_tag_rest cs)"
  by (induction cs) (simp_all add: lower_bracket_close)

lemma spec_strip_tags_lower:
  "spec_strip_tags (map lower_char s) = map lower_char (spec_strip_tags s)"
  by (induction s rule: spec_strip_tags.induct)
     (simp_all add: spec_tag_rest_lower lower_bracket_open split: option.splits)

lemma tag_rest_single_line: "single_line cs \<Longrightarrow> tag_rest cs = spec_tag_rest cs"
  by (induction cs) simp_all

lemma spec_tag_rest_single_line: "spec_tag_rest cs = Some r \<Longrightarrow> single_line cs \<Longrightarrow> single_line r"
  by (induction cs) (auto split: if_splits)

lemma strip_tags_single_line: "single_line s \<Longrightarrow> strip_tags s = spec_strip_tags s"
proof (induction s rule: strip_tags.induct)
  case 1
  then show ?case by simp
next
  case (2 c cs)
  from 2(4) have sl: "single_line cs" by simp
  have eq: "tag_rest cs = spec_tag_rest cs" using sl by (rule tag_rest_single_line)
  show ?case
  proof (cases "c = CHR ''[''")
    case False
    with 2(3)[OF False sl] show ?thesis by simp
  next
    case True
    show ?thesis
    proof (cases "spec_tag_rest cs")
      case None
      with eq have tn: "tag_rest cs = None" by simp
      from 2(1)[OF True tn sl] True tn None show ?thesis by simp
    next
      case (Some r)
      then have nt: "single_line r" using sl by (rule spec_tag_rest_single_line)
      from eq Some have tr: "tag_rest cs = Some r" by simp
      have "strip_tags r = spec_strip_tags r" using 2(2)[OF True tr nt] .
      with True tr Some show ?thesis by simp
    qed
  qed
qed

text \<open>
  What the code does meet of the derivation rule. For a title in which no line terminator
  stands, the slug is what the rule of the specification yields: strip every bracketed tag group,
  trim, lower-case, collapse every run of characters outside \<^verbatim>\<open>[a-z0-9]\<close> to one hyphen,
  strip the hyphens at the two ends (the code removes one hyphen at each end, which is
  all of them once the runs are collapsed). The title \<^verbatim>\<open>[CTT] [Migration] Kafka\<close> yields
  \<^verbatim>\<open>kafka\<close>.
\<close>

lemma slugify_refines_spec:
  assumes "single_line t"
  shows "slugify t = spec_slugify t \<and> slugify ''[CTT] [Migration] Kafka'' = ''kafka''"
proof -
  have "single_line (toLowerCase t)"
    using assms by (simp add: toLowerCase_def single_line_lower)
  then have "strip_tags (toLowerCase t) = spec_strip_tags (toLowerCase t)"
    by (rule strip_tags_single_line)
  also have "\<dots> = toLowerCase (spec_strip_tags t)"
    by (simp add: toLowerCase_def spec_strip_tags_lower)
  finally have "slugify t = spec_slugify t"
    by (simp add: slugify_def spec_slugify_def trim_toLowerCase
        strip_edge_is_spec[OF hyphenate_no_double_hyphen])
  moreover have "slugify ''[CTT] [Migration] Kafka'' = ''kafka''" by code_simp
  ultimately show ?thesis by simp
qed

lemma slugify_refines_spec_example:
  "single_line ''[Infra] Kafka Upgrade!'' \<and>
   slugify ''[Infra] Kafka Upgrade!'' = spec_slugify ''[Infra] Kafka Upgrade!'' \<and>
   spec_slugify ''[Infra] Kafka Upgrade!'' = ''kafka-upgrade''"
proof -
  have h: "single_line ''[Infra] Kafka Upgrade!''" by code_simp
  have "spec_slugify ''[Infra] Kafka Upgrade!'' = ''kafka-upgrade''" by code_simp
  with h slugify_refines_spec[OF h] show ?thesis by simp
qed

text \<open>
  C8. The code does not strip a bracketed tag group in which a line terminator stands:
  the dot of \<^verbatim>\<open>/\[.*?\]/g\<close> does not match LF, CR, U+2028 or U+2029, so the group stays
  and its text ends up in the slug. For a title that consists of \<^verbatim>\<open>[a\<close>, a line
  feed (or the character U+2028) and \<^verbatim>\<open>b]c\<close>, the slug is \<^verbatim>\<open>a-b-c\<close>, where stripping
  every bracketed group gives \<^verbatim>\<open>c\<close>.
\<close>

theorem slugify_tag_across_line_break:
  "slugify (''[a'' @ [LF] @ ''b]c'') = ''a-b-c'' \<and>
   spec_slugify (''[a'' @ [LF] @ ''b]c'') = ''c'' \<and>
   slugify (''[a'' @ [CHR 0xE2, CHR 0x80, CHR 0xA8] @ ''b]c'') = ''a-b-c'' \<and>
   spec_slugify (''[a'' @ [CHR 0xE2, CHR 0x80, CHR 0xA8] @ ''b]c'') = ''c''"
  by code_simp

section \<open>Properties of the merged record\<close>

lemma update_fresh: "k \<notin> fst ` set al \<Longrightarrow> AList.update k v al = al @ [(k, v)]"
  by (induction al) auto

lemma update_append_right: "k \<notin> fst ` set xs \<Longrightarrow> AList.update k v (xs @ ys) = xs @ AList.update k v ys"
  by (induction xs) auto

lemma obj_spread_fresh:
  "distinct (map fst src) \<Longrightarrow> fst ` set src \<inter> fst ` set kvs = {} \<Longrightarrow> obj_spread src kvs = kvs @ src"
proof (induction src arbitrary: kvs)
  case Nil
  then show ?case by (simp add: obj_spread_def)
next
  case (Cons e src)
  obtain k v where e: "e = (k, v)" by (cases e)
  from Cons.prems e have fresh: "k \<notin> fst ` set kvs" by auto
  have step: "obj_spread (e # src) kvs = obj_spread src (kvs @ [(k, v)])"
    by (simp add: obj_spread_def obj_set_def e update_fresh[OF fresh])
  from Cons.prems e have "distinct (map fst src)" and "fst ` set src \<inter> fst ` set (kvs @ [(k, v)]) = {}"
    by auto
  then have "obj_spread src (kvs @ [(k, v)]) = (kvs @ [(k, v)]) @ src" by (rule Cons.IH)
  with step e show ?case by simp
qed

lemma entries_keys: "fst ` set (entries_of p ks) \<subseteq> set ks"
  by (auto simp: entries_of_def)

lemma entries_distinct: "distinct ks \<Longrightarrow> distinct (map fst (entries_of p ks))"
  by (simp add: entries_of_def comp_def distinct_map_filter)

lemma entries_lookup: "map_of (entries_of p ks) k = (if k \<in> set ks then p k else None)"
  by (induction ks) (auto simp: entries_of_def)

lemma entries_cong: "(\<And>k. k \<in> set ks \<Longrightarrow> p k = q k) \<Longrightarrow> entries_of p ks = entries_of q ks"
  unfolding entries_of_def by (induction ks) auto

lemma merged_explicit:
  "merged_entries n f g p =
     remote_fields g @ entries_of p four_fields @
     [(''body_file'', js_or (p ''body_file'') (JStr (show_nat n @ ''-'' @ slug f @ ''.md''))),
      (''created'', JStr (split_T_head (createdAt g))),
      (''updated'', JStr (split_T_head (updatedAt g)))]"
proof -
  let ?R = "remote_fields g"
  let ?bf = "js_or (p ''body_file'') (JStr (show_nat n @ ''-'' @ slug f @ ''.md''))"
  have lof: "localOnlyFields = four_fields @ [''body_file'']"
    by (simp add: localOnlyFields_def four_fields_def)
  have keysR: "fst ` set ?R = {''issue_number'', ''repo'', ''title'', ''state'', ''labels'', ''assignees'', ''milestone''}"
    by (simp add: remote_fields_def)
  have dl: "distinct localOnlyFields" by (simp add: localOnlyFields_def)
  have disj: "set localOnlyFields \<inter> fst ` set ?R = {}"
    unfolding keysR by (simp add: localOnlyFields_def)
  have loe: "local_only_entries p = entries_of p localOnlyFields"
    by (simp add: local_only_entries_def entries_of_def)
  have d1: "distinct (map fst (entries_of p localOnlyFields))" by (rule entries_distinct[OF dl])
  have fe: "fromEntries (local_only_entries p) = entries_of p localOnlyFields"
    unfolding fromEntries_def loe using obj_spread_fresh[OF d1, of "[]"] by simp
  have "fst ` set (entries_of p localOnlyFields) \<inter> fst ` set ?R = {}"
    using entries_keys[of p localOnlyFields] disj by blast
  then have sp: "obj_spread (entries_of p localOnlyFields) ?R = ?R @ entries_of p localOnlyFields"
    by (rule obj_spread_fresh[OF d1])
  have split: "entries_of p localOnlyFields = entries_of p four_fields @ entries_of p [''body_file'']"
    by (simp add: lof entries_of_def)
  have nb: "''body_file'' \<notin> fst ` set (?R @ entries_of p four_fields)"
  proof -
    have "''body_file'' \<notin> set four_fields" by (simp add: four_fields_def)
    moreover have "''body_file'' \<notin> fst ` set ?R" unfolding keysR by simp
    ultimately show ?thesis using entries_keys[of p four_fields] by auto
  qed
  have bfset: "obj_set ''body_file'' ?bf (?R @ entries_of p localOnlyFields) =
        ?R @ entries_of p four_fields @ [(''body_file'', ?bf)]"
  proof -
    have e1: "AList.update ''body_file'' v (entries_of p [''body_file'']) = [(''body_file'', v)]" for v
      by (simp add: entries_of_def)
    show ?thesis
      using update_append_right[OF nb, of ?bf "entries_of p [''body_file'']"]
      by (simp add: split obj_set_def e1)
  qed
  have nc: "''created'' \<notin> fst ` set (?R @ entries_of p four_fields @ [(''body_file'', ?bf)])"
  proof -
    have "''created'' \<notin> set four_fields" by (simp add: four_fields_def)
    moreover have "''created'' \<notin> fst ` set ?R" unfolding keysR by simp
    ultimately show ?thesis using entries_keys[of p four_fields] by auto
  qed
  have s1: "obj_set ''created'' c (?R @ entries_of p four_fields @ [(''body_file'', ?bf)]) =
      ?R @ entries_of p four_fields @ [(''body_file'', ?bf), (''created'', c)]" for c
    using update_fresh[OF nc, of c] by (simp add: obj_set_def)
  have nu: "''updated'' \<notin> fst ` set (?R @ entries_of p four_fields @ [(''body_file'', ?bf), (''created'', c)])" for c
  proof -
    have "''updated'' \<notin> set four_fields" by (simp add: four_fields_def)
    moreover have "''updated'' \<notin> fst ` set ?R" unfolding keysR by simp
    ultimately show ?thesis using entries_keys[of p four_fields] by auto
  qed
  have s2: "obj_set ''updated'' u (?R @ entries_of p four_fields @ [(''body_file'', ?bf), (''created'', c)]) =
      ?R @ entries_of p four_fields @ [(''body_file'', ?bf), (''created'', c), (''updated'', u)]" for c u
    using update_fresh[OF nu[of c], of u] by (simp add: obj_set_def)
  show ?thesis
    unfolding merged_entries_def fe sp bfset s1 s2 by (rule refl)
qed




lemma merged_lookup_four:
  assumes "k \<in> set four_fields"
  shows "map_of (merged_entries n f g p) k = p k"
proof -
  have "k \<notin> fst ` set (remote_fields g)"
    using assms by (auto simp: remote_fields_def four_fields_def)
  then have "map_of (remote_fields g) k = None" by (simp add: map_of_eq_None_iff)
  moreover have "k \<noteq> ''body_file''" "k \<noteq> ''created''" "k \<noteq> ''updated''"
    using assms by (auto simp: four_fields_def)
  ultimately show ?thesis
    using assms by (simp add: merged_explicit map_add_def entries_lookup split: option.splits)
qed

lemma merged_lookup_body_file:
  "map_of (merged_entries n f g p) ''body_file'' =
     Some (js_or (p ''body_file'') (JStr (show_nat n @ ''-'' @ slug f @ ''.md'')))"
proof -
  have "map_of (remote_fields g) ''body_file'' = None" by (simp add: remote_fields_def)
  moreover have "map_of (entries_of p four_fields) ''body_file'' = None"
    by (simp add: entries_lookup four_fields_def)
  ultimately show ?thesis
    by (simp add: merged_explicit map_add_def split: option.splits)
qed





lemma map_of_reparse:
  "map_of (map (\<lambda>(k, v). (k, reparse v)) kvs) k = map_option reparse (map_of kvs k)"
  by (induction kvs) auto




section \<open>Properties of the directory and of file discovery\<close>

lemma sort_snoc: "sort (xs @ [x]) = insort x (sort xs)"
  by (induction xs) (simp_all add: insort_left_comm)

lemma readdir_sorted: "sorted (readdirSync d)"
  by (simp add: readdirSync_def)

lemma readdir_write:
  "readdirSync (writeFileSync name f d) =
     (if name \<in> set (readdirSync d) then readdirSync d else insort name (readdirSync d))"
  by (simp add: readdirSync_def writeFileSync_def update_keys sort_snoc)

lemma map_of_write:
  "map_of (writeFileSync name f d) k = (if k = name then Some f else map_of d k)"
  by (simp add: writeFileSync_def update_conv')


lemma exists_iff_listed: "existsSync d name \<longleftrightarrow> name \<in> set (readdirSync d)"
  by (simp add: existsSync_def readdirSync_def map_of_eq_None_iff)


lemma find_insort_after:
  "sorted xs \<Longrightarrow> find P xs = Some x \<Longrightarrow> x < y \<Longrightarrow> find P (insort y xs) = Some x"
proof (induction xs)
  case Nil
  then show ?case by simp
next
  case (Cons a xs)
  show ?case
  proof (cases "P a")
    case True
    with Cons.prems have ax: "a = x" by simp
    from Cons.prems(3) have "\<not> y \<le> a" unfolding ax by simp
    then show ?thesis using True ax by simp
  next
    case False
    with Cons.prems have f: "find P xs = Some x" by simp
    then have "x \<in> set xs" by (induction xs) (auto split: if_splits)
    with Cons.prems have "a \<le> x" by auto
    with Cons.prems have "\<not> y \<le> a" by auto
    moreover from Cons.prems have "sorted xs" by simp
    ultimately show ?thesis using Cons.IH f Cons.prems(3) False by simp
  qed
qed

lemma find_Some_D: "find P xs = Some x \<Longrightarrow> x \<in> set xs \<and> P x"
  by (induction xs) (auto split: if_splits)

lemma find_None_D: "find P xs = None \<Longrightarrow> x \<in> set xs \<Longrightarrow> \<not> P x"
  by (induction xs) (auto split: if_splits)

lemma startsWith_append: "startsWith (p @ s) p"
  by (induction p) simp_all

lemma startsWith_drop: "startsWith s p \<Longrightarrow> p @ drop (length p) s = s"
  by (induction s p rule: startsWith.induct) simp_all

text \<open>Replacing \<^verbatim>\<open>.json\<close> by \<^verbatim>\<open>.md\<close> gives a name that sorts after the original.\<close>

lemma replace_first_md_le: "x \<le> replace_first x ''.json'' ''.md''"
proof (induction x)
  case Nil
  show ?case by simp
next
  case (Cons c cs)
  show ?case
  proof (cases "startsWith (c # cs) ''.json''")
    case True
    from startsWith_drop[OF True] obtain r where r: "c # cs = ''.json'' @ r" by metis
    have "replace_first (''.json'' @ r) ''.json'' ''.md'' = ''.md'' @ r" by simp
    moreover have "''.json'' @ r \<le> ''.md'' @ r" by (simp add: less_char_def)
    ultimately show ?thesis unfolding r by simp
  next
    case False
    then have "replace_first (c # cs) ''.json'' ''.md'' = c # replace_first cs ''.json'' ''.md''"
      by (simp only: replace_first.simps if_False)
    with Cons show ?thesis by simp
  qed
qed

lemma single_line_plain:
  "(\<And>c. c \<in> set s \<Longrightarrow> c \<noteq> LF \<and> c \<noteq> CR \<and> c \<noteq> CHR 0xE2) \<Longrightarrow> single_line s"
  by (induction s) (auto simp: line_terminator_at_def line_terminators_def)

lemma replace_first_length:
  "length (replace_first (a @ pat @ b) pat rep) = length a + length rep + length b"
proof (induction a)
  case Nil
  show ?case
  proof (cases "pat @ b")
    case Nil
    then show ?thesis by simp
  next
    case (Cons x xs)
    have "startsWith (pat @ b) pat" by (rule startsWith_append)
    with Cons have "replace_first (pat @ b) pat rep = rep @ drop (length pat) (pat @ b)"
      by (metis replace_first.simps(2))
    then show ?thesis by simp
  qed
next
  case (Cons x a)
  show ?case
  proof (cases "startsWith (x # a @ pat @ b) pat")
    case True
    then show ?thesis using startsWith_length[OF True] by simp
  next
    case False
    with Cons show ?thesis by simp
  qed
qed

lemma endsWith_iff: "endsWith s suf \<longleftrightarrow> (\<exists>a. s = a @ suf)"
proof
  assume e: "endsWith s suf"
  define k where "k = length s - length suf"
  from e have d: "drop k s = suf" by (simp add: endsWith_def k_def)
  have "take k s @ drop k s = s" by (rule append_take_drop_id)
  then have "take k s @ suf = s" unfolding d .
  then have "s = take k s @ suf" by (rule sym)
  then show "\<exists>a. s = a @ suf" ..
next
  assume "\<exists>a. s = a @ suf"
  then obtain a where "s = a @ suf" ..
  then show "endsWith s suf" by (simp add: endsWith_def)
qed

lemma pattern_test_json: "pattern_test n x \<Longrightarrow> \<exists>a. x = a @ ''.json''"
proof -
  assume pt: "pattern_test n x"
  define k where "k = length (show_nat n) + 1"
  from pt have "endsWith (drop k x) ''.json''"
    unfolding pattern_test_def Let_def k_def by blast
  then obtain a where da: "drop k x = a @ ''.json''"
    unfolding endsWith_iff by (rule exE)
  have "take k x @ drop k x = x" by (rule append_take_drop_id)
  then have "(take k x @ a) @ ''.json'' = x" unfolding da by (simp only: append_assoc)
  then have "x = (take k x @ a) @ ''.json''" by (rule sym)
  then show ?thesis by (rule exI[where P = "\<lambda>a. x = a @ ''.json''" and x = "take k x @ a"])
qed

lemma md_name_differs:
  assumes "pattern_test n x"
  shows "replace_first x ''.json'' ''.md'' \<noteq> x"
proof -
  from assms obtain a where x: "x = a @ ''.json''" using pattern_test_json by blast
  have "length (replace_first (a @ ''.json'' @ []) ''.json'' ''.md'') = length a + length ''.md'' + length ([]::string)"
    by (rule replace_first_length)
  then have "length (replace_first x ''.json'' ''.md'') \<noteq> length x" using x by simp
  then show ?thesis by auto
qed

lemma findIssueFiles_SomeD:
  assumes "findIssueFiles d n = Some f"
  shows "find (pattern_test n) (readdirSync d) = Some (json f)"
    and "json f \<in> set (readdirSync d)"
    and "pattern_test n (json f)"
    and "md f = replace_first (json f) ''.json'' ''.md''"
    and "md f \<noteq> json f"
    and "json f < md f"
proof -
  from assms obtain x where fx: "find (pattern_test n) (readdirSync d) = Some x"
    and f: "f = \<lparr> json = x, md = replace_first x ''.json'' ''.md'',
                 slug = replace_first (strip_number_prefix x) ''.json'' [] \<rparr>"
    by (auto simp: findIssueFiles_def split: option.splits)
  from f have jx: "json f = x" by simp
  show "find (pattern_test n) (readdirSync d) = Some (json f)" using fx jx by simp
  from find_Some_D[OF fx] jx show "json f \<in> set (readdirSync d)" and pt: "pattern_test n (json f)"
    by simp_all
  show m: "md f = replace_first (json f) ''.json'' ''.md''" using f by simp
  show ne: "md f \<noteq> json f" unfolding m by (rule md_name_differs[OF pt])
  have "json f \<le> md f" unfolding m by (rule replace_first_md_le)
  with ne show "json f < md f" by simp
qed

lemma findIssueFiles_find:
  "find (pattern_test n) (readdirSync d') = find (pattern_test n) (readdirSync d) \<Longrightarrow>
   findIssueFiles d' n = findIssueFiles d n"
  by (simp add: findIssueFiles_def)

section \<open>Properties of pull\<close>

lemma pull_success:
  assumes "view r n = Some g"
    and "(if existsSync d (json (pull_files d n g)) then readJson d (json (pull_files d n g))
          else Inr (JObj [])) = Inr lj"
    and "props lj = Inr p"
  shows "pull r d n =
     Inr (writeMd (md (pull_files d n g)) (body_or_empty g)
            (writeJson (json (pull_files d n g)) (JObj (merged_entries n (pull_files d n g) g p)) d))"
  using assms by (simp add: pull_def fetchIssue_def merged_json_def Let_def)

lemma pull_InrE:
  assumes "pull r d n = Inr d'"
  obtains g lj p where "view r n = Some g"
    and "(if existsSync d (json (pull_files d n g)) then readJson d (json (pull_files d n g))
          else Inr (JObj [])) = Inr lj"
    and "props lj = Inr p"
    and "d' = writeMd (md (pull_files d n g)) (body_or_empty g)
            (writeJson (json (pull_files d n g)) (JObj (merged_entries n (pull_files d n g) g p)) d)"
  using assms
  by (auto simp: pull_def fetchIssue_def merged_json_def Let_def
      split: option.splits sum.splits)

lemma pull_listing:
  assumes "d' = writeMd mdn b (writeJson jn m d)"
  shows "readdirSync d' =
     (let l1 = (if jn \<in> set (readdirSync d) then readdirSync d else insort jn (readdirSync d))
      in if mdn \<in> set l1 then l1 else insort mdn l1)"
  using assms by (simp add: writeMd_def writeJson_def readdir_write Let_def)

lemma pull_contents:
  assumes "d' = writeMd mdn b (writeJson jn m d)" and "mdn \<noteq> jn"
  shows "map_of d' jn = Some (json_file m)"
    and "map_of d' mdn = Some (TextFile (writeMd_content b))"
  using assms by (simp_all add: writeMd_def writeJson_def map_of_write)

text \<open>
  C7. A pull of an identifier that has a local record, whatever the remote snapshot and
  its title are, finds the same record afterwards (the same metadata name, body name and
  slug), and the listing of the directory is the one before the pull, with the name of
  the body file put in its place only if that file was missing: no file is renamed.
\<close>

theorem pull_keeps_filenames:
  assumes found: "findIssueFiles d n = Some f" and ok: "pull r d n = Inr d'"
  shows "findIssueFiles d' n = Some f \<and>
         readdirSync d' =
           (if md f \<in> set (readdirSync d) then readdirSync d
            else insort (md f) (readdirSync d))"
proof -
  from ok obtain g p where g: "view r n = Some g"
    and d': "d' = writeMd (md (pull_files d n g)) (body_or_empty g)
            (writeJson (json (pull_files d n g)) (JObj (merged_entries n (pull_files d n g) g p)) d)"
    by (rule pull_InrE)
  have pf: "pull_files d n g = f" using found by (simp add: pull_files_def)
  note fs = findIssueFiles_SomeD[OF found]
  have listing: "readdirSync d' =
           (if md f \<in> set (readdirSync d) then readdirSync d
            else insort (md f) (readdirSync d))"
    using pull_listing[OF d'] fs(2) by (simp add: pf Let_def)
  have "find (pattern_test n) (insort (md f) (readdirSync d)) = Some (json f)"
    using readdir_sorted fs(1) fs(6) by (rule find_insort_after)
  then have "find (pattern_test n) (readdirSync d') = find (pattern_test n) (readdirSync d)"
    using fs(1) by (simp add: listing)
  then have "findIssueFiles d' n = findIssueFiles d n" by (rule findIssueFiles_find)
  with found listing show ?thesis by simp
qed


lemma of_char_digit_char: "d < 10 \<Longrightarrow> (of_char (digit_char d) :: nat) = 48 + d"
  by (simp add: digit_char_def)

lemma show_nat_digits: "c \<in> set (show_nat n) \<Longrightarrow> is_digit c"
proof (induction n arbitrary: c rule: show_nat.induct)
  case (1 n)
  show ?case
  proof (cases "n < 10")
    case True
    with 1(2) have "c = digit_char n" by (subst (asm) show_nat.simps) simp
    with True show ?thesis by (simp add: is_digit_def of_char_digit_char)
  next
    case False
    with 1(2) have "c \<in> set (show_nat (n div 10)) \<or> c = digit_char (n mod 10)"
      by (subst (asm) show_nat.simps) auto
    then show ?thesis
    proof
      assume "c \<in> set (show_nat (n div 10))"
      with 1(1)[OF False] show ?thesis by simp
    next
      assume "c = digit_char (n mod 10)"
      then show ?thesis by (simp add: is_digit_def of_char_digit_char)
    qed
  qed
qed

lemma slug_shape_chars: "slug_shape s \<Longrightarrow> c \<in> set s \<Longrightarrow> is_slug_alnum c \<or> c = CHR ''-''"
  by (auto simp: slug_shape_def list_all_iff)

lemma new_name_chars:
  assumes "c \<in> set (show_nat n @ ''-'' @ slugify t)"
  shows "c \<noteq> CHR ''.'' \<and> c \<noteq> LF \<and> c \<noteq> CR \<and> c \<noteq> CHR 0xE2"
proof -
  from assms have "is_digit c \<or> c = CHR ''-'' \<or> is_slug_alnum c"
    using show_nat_digits[of c n] slug_shape_chars[OF slugify_shape, of c t] by auto
  then show ?thesis
    by (auto simp: is_digit_def is_slug_alnum_def LF_def CR_def)
qed

lemma replace_first_no_dot:
  "CHR ''.'' \<notin> set a \<Longrightarrow> replace_first (a @ ''.json'') ''.json'' rep = a @ rep"
  by (induction a) auto

lemma pattern_test_new:
  assumes "single_line s"
  shows "pattern_test n (show_nat n @ ''-'' @ s @ ''.json'')"
proof -
  have sw: "startsWith ((show_nat n @ ''-'') @ s @ ''.json'') (show_nat n @ ''-'')"
    by (rule startsWith_append)
  have dr: "drop (length (show_nat n) + 1) (show_nat n @ ''-'' @ s @ ''.json'') = s @ ''.json''"
    by simp
  have ew: "endsWith (s @ ''.json'') ''.json''" by (simp add: endsWith_def)
  have tk: "take (length (s @ ''.json'') - 5) (s @ ''.json'') = s" by simp
  show ?thesis
    unfolding pattern_test_def Let_def dr tk using sw ew assms by simp
qed

lemma pull_files_facts:
  assumes F: "F = pull_files d n g"
  shows "md F \<noteq> json F"
    and "md F = replace_first (json F) ''.json'' ''.md''"
    and "pattern_test n (json F)"
    and "findIssueFiles d n = None \<Longrightarrow> json F \<notin> set (readdirSync d)"
    and "findIssueFiles d n \<noteq> None \<Longrightarrow> find (pattern_test n) (readdirSync d) = Some (json F)"
proof -
  have all: "md F \<noteq> json F \<and> md F = replace_first (json F) ''.json'' ''.md'' \<and>
      pattern_test n (json F) \<and>
      (findIssueFiles d n = None \<longrightarrow> json F \<notin> set (readdirSync d)) \<and>
      (findIssueFiles d n \<noteq> None \<longrightarrow> find (pattern_test n) (readdirSync d) = Some (json F))"
  proof (cases "findIssueFiles d n")
    case (Some f)
    then have "F = f" using F by (simp add: pull_files_def)
    with findIssueFiles_SomeD[OF Some] Some show ?thesis by simp
  next
    case None
    define a where "a = show_nat n @ ''-'' @ slugify (title g)"
    have j: "json F = a @ ''.json''" and m: "md F = a @ ''.md''"
      using F None by (simp_all add: pull_files_def new_files_def a_def)
    have chars: "\<And>c. c \<in> set a \<Longrightarrow>
        c \<noteq> CHR ''.'' \<and> c \<noteq> LF \<and> c \<noteq> CR \<and> c \<noteq> CHR 0xE2"
      unfolding a_def by (rule new_name_chars)
    then have nodot: "CHR ''.'' \<notin> set a" by auto
    have pt: "pattern_test n (json F)"
    proof -
      have "single_line (slugify (title g))"
        by (rule single_line_plain) (use chars in \<open>auto simp: a_def\<close>)
      then have "pattern_test n (show_nat n @ ''-'' @ slugify (title g) @ ''.json'')"
        by (rule pattern_test_new)
      then show ?thesis by (simp add: j a_def)
    qed
    have nf: "find (pattern_test n) (readdirSync d) = None"
      using None by (simp add: findIssueFiles_def split: option.splits)
    have "json F \<notin> set (readdirSync d)"
    proof
      assume "json F \<in> set (readdirSync d)"
      from find_None_D[OF nf this] pt show False by (rule notE)
    qed
    moreover have "md F \<noteq> json F"
    proof
      assume "md F = json F"
      then have "length (md F) = length (json F)" by simp
      then show False by (simp add: j m)
    qed
    moreover have "md F = replace_first (json F) ''.json'' ''.md''"
      unfolding j m by (rule replace_first_no_dot[OF nodot, symmetric])
    ultimately show ?thesis using pt None by simp
  qed
  from all show "md F \<noteq> json F" by (elim conjE)
  from all show "md F = replace_first (json F) ''.json'' ''.md''" by (elim conjE)
  from all show "pattern_test n (json F)" by (elim conjE)
  from all have "findIssueFiles d n = None \<longrightarrow> json F \<notin> set (readdirSync d)" by (elim conjE)
  then show "findIssueFiles d n = None \<Longrightarrow> json F \<notin> set (readdirSync d)" by (rule mp)
  from all have "findIssueFiles d n \<noteq> None \<longrightarrow> find (pattern_test n) (readdirSync d) = Some (json F)"
    by (elim conjE)
  then show "findIssueFiles d n \<noteq> None \<Longrightarrow> find (pattern_test n) (readdirSync d) = Some (json F)"
    by (rule mp)
qed




lemma example_found: "findIssueFiles example_dir 7 = Some example_files"
  by code_simp

lemma example_pull: "pull example_remote example_dir 7 = Inr example_pulled"
  by code_simp

text \<open>
  The record \<^verbatim>\<open>7-kafka\<close> keeps its names although the slug of the remote title is
  \<^verbatim>\<open>kafka-migration\<close>.
\<close>

theorem pull_keeps_filenames_witness:
  "findIssueFiles example_dir 7 = Some example_files \<and>
   pull example_remote example_dir 7 = Inr example_pulled \<and>
   slugify (title example_issue) = ''kafka-migration'' \<and>
   findIssueFiles example_pulled 7 = Some example_files \<and>
   readdirSync example_pulled = [''7-kafka.json'', ''7-kafka.md'']"
proof -
  have s: "slugify (title example_issue) = ''kafka-migration''" by code_simp
  have l: "readdirSync example_dir = [''7-kafka.json'', ''7-kafka.md'']" by code_simp
  have m: "md example_files = ''7-kafka.md''" by (simp add: example_files_def)
  from pull_keeps_filenames[OF example_found example_pull] s l m example_found example_pull
  show ?thesis by simp
qed



text \<open>
  A pull of an identifier whose metadata record is a finite JSON object writes a record
  that has every local-only field \<^verbatim>\<open>hub_projekt\<close>, \<^verbatim>\<open>typ\<close>, \<^verbatim>\<open>technologie_steckbrief\<close>,
  \<^verbatim>\<open>related_issues\<close> that the local record had, with the same value when that value is
  written and read back unchanged, and keeps such a \<^verbatim>\<open>body_file\<close> when it is truthy.
\<close>

lemma pull_keeps_truthy_local_only:
  assumes found: "findIssueFiles d n = Some f"
    and lcl: "readJson d (json f) = Inr (JObj kvs)"
    and g: "view r n = Some g"
    and k: "k \<in> set localOnlyFields"
    and kv: "map_of kvs k = Some v"
    and fin: "reparse v = v"
    and bf: "k = ''body_file'' \<longrightarrow> truthy v"
  shows "\<exists>d' m. pull r d n = Inr d' \<and>
           readJson d' (json f) = Inr (JObj m) \<and> map_of m k = Some v"
proof -
  have pf: "pull_files d n g = f" using found by (simp add: pull_files_def)
  define m where "m = merged_entries n f g (map_of kvs)"
  define rp where "rp = (\<lambda>(k, v). (k, reparse v) :: string \<times> json)"
  define d' where "d' = writeMd (md f) (body_or_empty g) (writeJson (json f) (JObj m) d)"
  have ex: "existsSync d (json f)"
    using findIssueFiles_SomeD(2)[OF found] by (simp add: exists_iff_listed)
  have rd: "(if existsSync d (json (pull_files d n g)) then readJson d (json (pull_files d n g))
          else Inr (JObj [])) = Inr (JObj kvs)"
    using lcl ex by (simp add: pf)
  have "pull r d n = Inr d'"
    using pull_success[OF g rd, of "map_of kvs"] by (simp add: pf d'_def m_def)
  moreover have "readJson d' (json f) = Inr (JObj (map rp m))"
    using pull_contents(1)[OF d'_def findIssueFiles_SomeD(5)[OF found]]
    by (simp add: readJson_def json_file_def rp_def)
  moreover have "map_of (map rp m) k = Some v"
  proof -
    have "map_of m k = Some v"
    proof (cases "k = ''body_file''")
      case True
      with bf have "truthy v" by simp
      then show ?thesis
        unfolding m_def True merged_lookup_body_file using kv True
        by (simp add: js_or_def)
    next
      case False
      with k have "k \<in> set four_fields" by (simp add: localOnlyFields_def four_fields_def)
      then show ?thesis unfolding m_def using kv by (simp add: merged_lookup_four)
    qed
    then show ?thesis unfolding rp_def map_of_reparse by (simp add: fin)
  qed
  ultimately show ?thesis by blast
qed

text \<open>
  C1. The code does not preserve every local-only field on a pull, although the source
  says that these fields are never overwritten by pull. The local record of issue 7 with
  \<^verbatim>\<open>"typ": "migration"\<close> and \<^verbatim>\<open>"body_file": ""\<close> is written back with \<^verbatim>\<open>body_file\<close> set to
  \<^verbatim>\<open>7-kafka.md\<close>: \<^verbatim>\<open>localJson.body_file || ...\<close> replaces every falsy value, not only a
  missing one. The local record with \<^verbatim>\<open>"typ": 1e999\<close> is written back with \<^verbatim>\<open>typ\<close> set to
  \<^verbatim>\<open>null\<close>.
\<close>

theorem pull_overwrites_local_only:
  "readJson falsy_body_file_dir ''7-kafka.json'' =
     Inr (JObj [(''typ'', JStr ''migration''), (''body_file'', JStr [])]) \<and>
   pull example_remote falsy_body_file_dir 7 = Inr example_pulled \<and>
   readJson example_pulled ''7-kafka.json'' =
     Inr (JObj [(''issue_number'', JNum (Finite ''7'')),
                (''repo'', JStr ''michaelstingl/cnrz-ctt''),
                (''title'', JStr ''[CTT] Kafka Migration''),
                (''state'', JStr ''open''),
                (''labels'', JArr [JStr ''bug'']),
                (''assignees'', JArr [JStr ''alice'']),
                (''milestone'', JNull),
                (''typ'', JStr ''migration''),
                (''body_file'', JStr ''7-kafka.md''),
                (''created'', JStr ''2024-01-02''),
                (''updated'', JStr ''2024-02-03'')]) \<and>
   readJson overflow_typ_dir ''7-kafka.json'' = Inr (JObj [(''typ'', JNum PlusInfinity)]) \<and>
   pull example_remote overflow_typ_dir 7 = Inr overflow_typ_pulled \<and>
   readJson overflow_typ_pulled ''7-kafka.json'' =
     Inr (JObj [(''issue_number'', JNum (Finite ''7'')),
                (''repo'', JStr ''michaelstingl/cnrz-ctt''),
                (''title'', JStr ''[CTT] Kafka Migration''),
                (''state'', JStr ''open''),
                (''labels'', JArr [JStr ''bug'']),
                (''assignees'', JArr [JStr ''alice'']),
                (''milestone'', JNull),
                (''typ'', JNull),
                (''body_file'', JStr ''7-kafka.md''),
                (''created'', JStr ''2024-01-02''),
                (''updated'', JStr ''2024-02-03'')])"
  by code_simp

text \<open>
  C10. For every title the slug consists of lower-case letters, digits and hyphens, has
  no hyphen at either end and no two hyphens in a row. It can be empty, as for a title
  made of bracketed groups only; a pull that creates the record of such an issue creates
  the files \<^verbatim>\<open>{id}-.json\<close> and \<^verbatim>\<open>{id}-.md\<close>.
\<close>

theorem slugify_shape_and_empty_slug:
  "slug_shape (slugify t) \<and>
   slugify ''[CTT] [Migration]'' = [] \<and>
   (findIssueFiles d n = None \<and> view r n = Some g \<and> slugify (title g) = [] \<longrightarrow>
      (\<exists>d'. pull r d n = Inr d' \<and>
         \<not> existsSync d (show_nat n @ ''-.json'') \<and>
         existsSync d' (show_nat n @ ''-.json'') \<and>
         existsSync d' (show_nat n @ ''-.md'')))"
proof -
  have e: "slugify ''[CTT] [Migration]'' = []" by code_simp
  have c: "\<exists>d'. pull r d n = Inr d' \<and>
         \<not> existsSync d (show_nat n @ ''-.json'') \<and>
         existsSync d' (show_nat n @ ''-.json'') \<and>
         existsSync d' (show_nat n @ ''-.md'')"
    if none: "findIssueFiles d n = None" and g: "view r n = Some g"
      and empty: "slugify (title g) = []"
  proof -
    define F where "F = pull_files d n g"
    have j: "json F = show_nat n @ ''-.json''" and m: "md F = show_nat n @ ''-.md''"
      using none empty by (simp_all add: F_def pull_files_def new_files_def)
    note ff = pull_files_facts[OF F_def]
    have nin: "json F \<notin> set (readdirSync d)" by (rule ff(4)[OF none])
    then have nex: "\<not> existsSync d (json F)" by (simp add: exists_iff_listed)
    then have rd: "(if existsSync d (json (pull_files d n g))
          then readJson d (json (pull_files d n g)) else Inr (JObj [])) = Inr (JObj [])"
      by (simp add: F_def)
    define d' where "d' = writeMd (md F) (body_or_empty g)
            (writeJson (json F) (JObj (merged_entries n F g (map_of []))) d)"
    have "pull r d n = Inr d'"
      using pull_success[OF g rd, of "map_of []"] by (simp add: d'_def F_def)
    moreover have "existsSync d' (json F)" and "existsSync d' (md F)"
      using pull_contents[OF d'_def ff(1)] by (simp_all add: existsSync_def)
    ultimately show ?thesis using nex unfolding j m by blast
  qed
  from slugify_shape e c show ?thesis by blast
qed

text \<open>Issue 7 with the title \<^verbatim>\<open>[CTT] [Migration]\<close>, pulled into an empty directory.\<close>

theorem slugify_shape_and_empty_slug_witness:
  "slug_shape (slugify ''[CTT] [Migration] Kafka'') \<and>
   slugify ''[CTT] [Migration] Kafka'' = ''kafka'' \<and>
   findIssueFiles [] 7 = None \<and>
   (\<exists>d'. pull tags_only_remote [] 7 = Inr d' \<and>
      existsSync d' ''7-.json'' \<and> existsSync d' ''7-.md'')"
proof -
  have k: "slugify ''[CTT] [Migration] Kafka'' = ''kafka''" by code_simp
  have none: "findIssueFiles [] 7 = None" by code_simp
  have g: "view tags_only_remote 7 = Some (example_issue \<lparr> title := ''[CTT] [Migration]'' \<rparr>)"
    by (simp add: tags_only_remote_def)
  have empty: "slugify (title (example_issue \<lparr> title := ''[CTT] [Migration]'' \<rparr>)) = []"
    by code_simp
  have sn: "show_nat 7 = ''7''" by code_simp
  from slugify_shape_and_empty_slug[of "''[CTT] [Migration] Kafka''" "[]" 7 tags_only_remote
      "example_issue \<lparr> title := ''[CTT] [Migration]'' \<rparr>"] none g empty k
  show ?thesis by (auto simp: sn)
qed

section \<open>Properties of the status check\<close>

lemma insort_key_map:
  "insort_key f (g x) (map g ys) = map g (insort_key (\<lambda>a. f (g a)) x ys)"
  by (induction ys) simp_all

lemma sort_key_map: "sort_key f (map g xs) = map g (sort_key (\<lambda>a. f (g a)) xs)"
  by (induction xs) (simp_all add: insort_key_map)

lemma sort_short: "length xs < 2 \<Longrightarrow> sort xs = xs"
proof (cases xs)
  case Nil
  then show ?thesis by simp
next
  case (Cons a ys)
  assume "length xs < 2"
  with Cons have "ys = []" by simp
  with Cons show ?thesis by simp
qed

lemma js_sort_strings: "js_sort (map JStr ls) = Inr (map JStr (sort ls))"
proof (cases "length ls < 2")
  case True
  then show ?thesis by (simp add: js_sort_def sort_short)
next
  case False
  have "map js_to_string (map JStr ls) = map Inr ls" by simp
  then have a: "all_right (map js_to_string (map JStr ls)) = Inr ls"
    by (simp only: all_right_Inr)
  have s: "sort_key text_of (map JStr ls) = map JStr (sort ls)"
    by (simp add: sort_key_map text_of_def)
  show ?thesis unfolding js_sort_def a s using False by simp
qed

lemma map_JStr_eq: "map JStr a = map JStr b \<longleftrightarrow> a = b"
  by (simp add: inj_on_def)

lemma status_check_strings:
  assumes "js_or (map_of kvs ''labels'') (JArr []) = JArr (map JStr ls)"
  shows "status_check (JObj kvs) gh =
     Inr \<lparr> titleMatch = (map_of kvs ''title'' = Some (JStr (title gh))),
           labelsMatch = (sort ls = sort (labels gh)),
           stateMatch = (map_of kvs ''state'' = Some (JStr (toLowerCase (state gh)))),
           inSync = (map_of kvs ''title'' = Some (JStr (title gh)) \<and>
                     sort ls = sort (labels gh) \<and>
                     map_of kvs ''state'' = Some (JStr (toLowerCase (state gh)))) \<rparr>"
  using assms by (simp add: status_check_def Let_def js_sort_strings map_JStr_eq)

text \<open>
  C2 (as amended). For a local record whose labels are a list of strings (or absent), the
  status check reports the issue as in sync if and only if the local title is the
  remote title, the local state is the lower-cased remote state, and the sorted local
  labels are the sorted remote labels. The state comparison is a comparison without
  regard to case only for a local state that is stored in lower case. In particular
  local \<^verbatim>\<open>{state: "open", labels: ["bug"]}\<close> against remote
  \<^verbatim>\<open>{state: "OPEN", labels: [{name: "bug"}]}\<close> with the same title is in sync.
\<close>

theorem status_in_sync_iff:
  assumes "map_of kvs ''labels'' = Some (JArr (map JStr ls)) \<or>
           (map_of kvs ''labels'' = None \<and> ls = [])"
  shows "\<exists>rep. status_check (JObj kvs) gh = Inr rep \<and>
     (inSync rep \<longleftrightarrow>
        map_of kvs ''title'' = Some (JStr (title gh)) \<and>
        map_of kvs ''state'' = Some (JStr (toLowerCase (state gh))) \<and>
        sort ls = sort (labels gh)) \<and>
     (\<forall>s. map_of kvs ''state'' = Some (JStr s) \<and> toLowerCase s = s \<longrightarrow>
        (stateMatch rep \<longleftrightarrow> same_ignoring_case s (state gh)))"
proof -
  from assms have "js_or (map_of kvs ''labels'') (JArr []) = JArr (map JStr ls)"
    by (auto simp: js_or_def)
  then show ?thesis
    by (auto simp: status_check_strings same_ignoring_case_def)
qed

text \<open>The example of the claim, with the title of issue 7 on both sides.\<close>

theorem status_in_sync_iff_witness:
  "status_check example_local example_issue =
     Inr \<lparr> titleMatch = True, labelsMatch = True, stateMatch = True, inSync = True \<rparr> \<and>
   same_ignoring_case ''open'' (state example_issue)"
proof -
  let ?kvs = "[(''title'', JStr ''[CTT] Kafka Migration''), (''state'', JStr ''open''),
               (''labels'', JArr [JStr ''bug''])]"
  have l: "map_of ?kvs ''labels'' = Some (JArr (map JStr [''bug''])) \<or>
           (map_of ?kvs ''labels'' = None \<and> [''bug''] = [])" by simp
  have e: "status_check example_local example_issue =
     Inr \<lparr> titleMatch = True, labelsMatch = True, stateMatch = True, inSync = True \<rparr>"
    by code_simp
  have s: "map_of ?kvs ''state'' = Some (JStr ''open'')" by simp
  have lo: "toLowerCase ''open'' = ''open''" by code_simp
  from status_in_sync_iff[OF l, of example_issue] e s lo
  show ?thesis by (auto simp: example_local_def)
qed

text \<open>
  C2 as stated fails: a local state \<^verbatim>\<open>OPEN\<close> equals the remote state \<^verbatim>\<open>OPEN\<close> without
  regard to case (it is even the same string), title and labels match, and the issue is
  reported as not in sync, since only the remote state is lower-cased.
\<close>

theorem status_upper_case_state_counterexample:
  "same_ignoring_case ''OPEN'' (state example_issue) \<and>
   status_check upper_state_local example_issue =
     Inr \<lparr> titleMatch = True, labelsMatch = True, stateMatch = False, inSync = False \<rparr>"
  by code_simp

section \<open>Properties of push and diff\<close>

lemma updateIssue_first_command:
  assumes "title_option t = Inr topt" and "\<not> existsSync d bodyFile"
  shows "\<exists>res cmds. updateIssue r d n t bodyFile lbls = (res, IssueEdit n topt None # cmds)"
  using assms by (auto simp: updateIssue_def Let_def split: prod.splits)

lemma updateIssue_title_throws:
  assumes "title_option t = Inl e"
  shows "updateIssue r d n t bodyFile lbls = (Inl (Uncaught e), [])"
  using assms by (simp add: updateIssue_def)

lemma readJson_uncaught: "readJson d name = Inl e \<Longrightarrow> \<exists>x. e = Uncaught x"
  by (auto simp: readJson_def split: option.splits file_data.splits)

text \<open>
  C4 (as amended). When no metadata file of the identifier exists, push and diff end with
  exit code 1 and one printed line, and issue no remote command. When the metadata file
  exists and the body file is missing, diff ends with exit status 1 before any remote
  command, by the uncaught error of reading the metadata file if that does not parse and
  of reading the body file otherwise. Push with the metadata file present and the body
  file missing ends by an uncaught error before any remote command when the metadata
  file does not parse, when it parses to \<^verbatim>\<open>null\<close>, and when its title is truthy and not a
  string; in every other case push goes on, and the first command it issues is the edit
  command with the title (if truthy) and without \<^verbatim>\<open>--body-file\<close>.
\<close>

theorem push_diff_missing_files:
  "(findIssueFiles d n = None \<longrightarrow>
      push r d n = (Inl (Exit 1 [push_no_files n]), []) \<and>
      diff r d n = (Inl (Exit 1 [diff_no_files n]), [])) \<and>
   (findIssueFiles d n = Some f \<and> \<not> existsSync d (md f) \<longrightarrow>
      diff r d n =
        (case readJson d (json f) of
           Inl e \<Rightarrow> (Inl e, [])
         | Inr j \<Rightarrow> (Inl (Uncaught ENOENT), [])) \<and>
      exit_status (fst (diff r d n)) = 1) \<and>
   (findIssueFiles d n = Some f \<and> \<not> existsSync d (md f) \<longrightarrow>
      (case readJson d (json f) of
         Inl e \<Rightarrow> push r d n = (Inl e, [])
       | Inr j \<Rightarrow>
           (case props j of
              Inl e \<Rightarrow> push r d n = (Inl (Uncaught e), [])
            | Inr p \<Rightarrow>
                (case title_option (p ''title'') of
                   Inl e \<Rightarrow> push r d n = (Inl (Uncaught e), [])
                 | Inr t \<Rightarrow> (\<exists>res cmds. push r d n = (res, IssueEdit n t None # cmds))))))"
proof (intro conjI impI)
  assume "findIssueFiles d n = None"
  then show "push r d n = (Inl (Exit 1 [push_no_files n]), [])"
    and "diff r d n = (Inl (Exit 1 [diff_no_files n]), [])"
    by (simp_all add: push_def diff_def)
next
  assume a: "findIssueFiles d n = Some f \<and> \<not> existsSync d (md f)"
  then have m: "readMd d (md f) = Inl (Uncaught ENOENT)"
    by (simp add: readMd_def existsSync_def)
  show d: "diff r d n =
        (case readJson d (json f) of
           Inl e \<Rightarrow> (Inl e, [])
         | Inr j \<Rightarrow> (Inl (Uncaught ENOENT), []))"
    using a m by (simp add: diff_def split: sum.splits)
  show "exit_status (fst (diff r d n)) = 1"
  proof (cases "readJson d (json f)")
    case (Inl e)
    then obtain x where "e = Uncaught x" using readJson_uncaught by blast
    with Inl show ?thesis unfolding d by simp
  next
    case (Inr j)
    then show ?thesis unfolding d by simp
  qed
next
  assume a: "findIssueFiles d n = Some f \<and> \<not> existsSync d (md f)"
  show "case readJson d (json f) of
         Inl e \<Rightarrow> push r d n = (Inl e, [])
       | Inr j \<Rightarrow>
           (case props j of
              Inl e \<Rightarrow> push r d n = (Inl (Uncaught e), [])
            | Inr p \<Rightarrow>
                (case title_option (p ''title'') of
                   Inl e \<Rightarrow> push r d n = (Inl (Uncaught e), [])
                 | Inr t \<Rightarrow> (\<exists>res cmds. push r d n = (res, IssueEdit n t None # cmds))))"
  proof (cases "readJson d (json f)")
    case (Inl e)
    with a show ?thesis by (simp add: push_def)
  next
    case j: (Inr j)
    show ?thesis
    proof (cases "props j")
      case (Inl e)
      with a j show ?thesis by (simp add: push_def)
    next
      case p: (Inr p)
      have pu: "push r d n =
          updateIssue r d n (p ''title'') (md f) (js_or (p ''labels'') (JArr []))"
        using a j p by (simp add: push_def)
      show ?thesis
      proof (cases "title_option (p ''title'')")
        case (Inl e)
        then show ?thesis using j p pu by (simp add: updateIssue_title_throws)
      next
        case (Inr t)
        have "\<exists>res cmds. updateIssue r d n (p ''title'') (md f)
            (js_or (p ''labels'') (JArr [])) = (res, IssueEdit n t None # cmds)"
          using Inr a by (intro updateIssue_first_command) simp_all
        then show ?thesis using j p pu Inr by simp
      qed
    qed
  qed
qed

lemma no_body_found:
  "findIssueFiles no_body_dir 7 = Some example_files"
  by code_simp

lemma null_no_body_found:
  "findIssueFiles null_no_body_dir 7 = Some example_files"
  by code_simp

text \<open>
  Push and diff of issue 7 in an empty directory, in one without the body file, and in
  one without the body file whose metadata file holds \<^verbatim>\<open>null\<close>.
\<close>

theorem push_diff_missing_files_witness:
  "push example_remote [] 7 = (Inl (Exit 1 [push_no_files 7]), []) \<and>
   diff example_remote [] 7 = (Inl (Exit 1 [''No local files found for issue #7'']), []) \<and>
   diff example_remote no_body_dir 7 = (Inl (Uncaught ENOENT), []) \<and>
   (\<exists>res cmds. push example_remote no_body_dir 7 = (res, IssueEdit 7 (Some ''Kafka'') None # cmds)) \<and>
   diff example_remote null_no_body_dir 7 = (Inl (Uncaught ENOENT), []) \<and>
   push example_remote null_no_body_dir 7 = (Inl (Uncaught TypeError), [])"
proof -
  let ?kvs = "[(''title'', JStr ''Kafka''), (''labels'', JArr [JStr ''bug''])]"
  have none: "findIssueFiles [] 7 = None" by code_simp
  have rj: "readJson no_body_dir (json example_files) = Inr (JObj ?kvs)" by code_simp
  have nb: "\<not> existsSync no_body_dir (md example_files)" by code_simp
  have t: "title_option (map_of ?kvs ''title'') = Inr (Some ''Kafka'')" by code_simp
  have m: "diff_no_files 7 = ''No local files found for issue #7''" by code_simp
  have rn: "readJson null_no_body_dir (json example_files) = Inr JNull" by code_simp
  have nn: "\<not> existsSync null_no_body_dir (md example_files)" by code_simp
  from push_diff_missing_files[where d = "[]" and n = 7 and r = example_remote] none
  have a: "push example_remote [] 7 = (Inl (Exit 1 [push_no_files 7]), []) \<and>
      diff example_remote [] 7 = (Inl (Exit 1 [diff_no_files 7]), [])" by simp
  from push_diff_missing_files[where d = no_body_dir and n = 7 and f = example_files
      and r = example_remote]
    no_body_found rj nb t
  have b: "diff example_remote no_body_dir 7 = (Inl (Uncaught ENOENT), []) \<and>
      (\<exists>res cmds. push example_remote no_body_dir 7 = (res, IssueEdit 7 (Some ''Kafka'') None # cmds))"
    by simp
  from push_diff_missing_files[where d = null_no_body_dir and n = 7 and f = example_files
      and r = example_remote]
    null_no_body_found rn nn
  have c: "diff example_remote null_no_body_dir 7 = (Inl (Uncaught ENOENT), []) \<and>
      push example_remote null_no_body_dir 7 = (Inl (Uncaught TypeError), [])"
    by simp
  from a b c m show ?thesis by simp
qed

text \<open>
  C4 as stated fails for push with a missing body file: the metadata file
  \<^verbatim>\<open>7-kafka.json\<close> is there, \<^verbatim>\<open>7-kafka.md\<close> is not, and push returns normally after it
  has issued \<^verbatim>\<open>gh issue edit 7 --title "Kafka"\<close>, a remote update.
\<close>

theorem push_missing_body_counterexample:
  "findIssueFiles no_body_dir 7 = Some example_files \<and>
   md example_files = ''7-kafka.md'' \<and>
   existsSync no_body_dir ''7-kafka.md'' = False \<and>
   push example_remote no_body_dir 7 =
     (Inr (), [IssueEdit 7 (Some ''Kafka'') None, IssueViewLabels 7]) \<and>
   exit_status (fst (push example_remote no_body_dir 7)) = 0 \<and>
   is_update (IssueEdit 7 (Some ''Kafka'') None)"
  by code_simp

lemma converts_JStr: "converts (JStr s)"
  by (simp add: converts_def)

lemma all_right_converts:
  "list_all converts vs \<Longrightarrow> \<exists>ss. all_right (map js_to_string vs) = Inr ss"
proof (induction vs)
  case Nil
  show ?case by simp
next
  case (Cons v vs)
  then obtain ss where ss: "all_right (map js_to_string vs) = Inr ss" by auto
  from Cons.prems obtain t where t: "js_to_string v = Inr t"
    by (auto simp: converts_def split: sum.splits)
  show ?case by (simp add: ss t)
qed

lemma js_sort_converts:
  assumes "list_all converts ls"
  shows "\<exists>ls'. js_sort ls = Inr ls' \<and> set ls' = set ls"
proof -
  from all_right_converts[OF assms] obtain ss where "all_right (map js_to_string ls) = Inr ss" ..
  then show ?thesis by (simp add: js_sort_def)
qed

lemma print_report_converts:
  assumes "list_all converts (concat (map printed_values (metaDiffs report)))"
  shows "print_report report = Inr ()"
proof -
  from all_right_converts[OF assms] obtain ss
    where "all_right (map js_to_string (concat (map printed_values (metaDiffs report)))) = Inr ss" ..
  then show ?thesis by (simp add: print_report_def)
qed

lemma compare_issue_converts:
  assumes lab: "js_or (p ''labels'') (JArr []) = JArr ls"
    and cl: "list_all converts ls"
    and ct: "converts_if_present (p ''title'')"
    and cs: "converts_if_present (p ''state'')"
  shows "\<exists>report. compare_issue p lm g = Inr report \<and>
           list_all converts (concat (map printed_values (metaDiffs report)))"
proof -
  from js_sort_converts[OF cl] obtain ls' where s: "js_sort ls = Inr ls'" and e: "set ls' = set ls"
    by blast
  define ghLabels where "ghLabels = map JStr (sort (labels g))"
  define added where "added = filter (\<lambda>l. l \<notin> set ghLabels) ls'"
  define removed where "removed = filter (\<lambda>l. l \<notin> set ls') ghLabels"
  define tdiff where "tdiff = (if p ''title'' \<noteq> Some (JStr (title g))
                            then [FieldDiff ''title'' (p ''title'') (title g)] else [])"
  define sdiff where "sdiff = (if p ''state'' \<noteq> Some (JStr (toLowerCase (state g)))
                            then [FieldDiff ''state'' (p ''state'') (toLowerCase (state g))]
                            else [])"
  define ldiff where "ldiff = (if added \<noteq> [] \<or> removed \<noteq> [] then [LabelsDiff added removed] else [])"
  define report where
    "report = \<lparr> metaDiffs = tdiff @ sdiff @ ldiff,
                bodyDiffers = (trim lm \<noteq> trim (body_or_empty g)) \<rparr>"
  have c: "compare_issue p lm g = Inr report"
    unfolding compare_issue_def lab
    by (simp add: s Let_def report_def tdiff_def sdiff_def ldiff_def added_def removed_def
        ghLabels_def)
  have ca: "list_all converts added"
    using cl e by (auto simp: added_def list_all_iff)
  have cr: "list_all converts removed"
    by (auto simp: removed_def ghLabels_def list_all_iff converts_JStr)
  have t: "list_all converts (concat (map printed_values tdiff))"
    using ct by (auto simp: tdiff_def converts_if_present_def split: option.splits)
  have st: "list_all converts (concat (map printed_values sdiff))"
    using cs by (auto simp: sdiff_def converts_if_present_def split: option.splits)
  have l: "list_all converts (concat (map printed_values ldiff))"
    using ca cr by (simp add: ldiff_def)
  have "list_all converts (concat (map printed_values (metaDiffs report)))"
    using t st l by (simp add: report_def)
  with c show ?thesis by blast
qed

text \<open>
  A label that does not convert to a string ends diff with the \<^verbatim>\<open>TypeError\<close> of \<^verbatim>\<open>sort\<close>.
\<close>

lemma diff_label_conversion_throws:
  "diff example_remote odd_labels_dir 7 = (Inl (Uncaught TypeError), [IssueView 7]) \<and>
   exit_status (fst (diff example_remote odd_labels_dir 7)) = 1"
  by code_simp

text \<open>
  C9 (as amended). Diff exits with status 0, whether or not it finds differences, when
  the local record is found, its metadata file parses to a value other than \<^verbatim>\<open>null\<close>, its
  body file can be read, the remote fetch succeeds, the local labels are falsy, absent or
  an array, and the local title, the local state and every local label convert to a
  string without an exception (every value does but an object with an entry \<^verbatim>\<open>toString\<close>
  and an array that holds one). It exits with status 1 when there is no local record,
  when the remote fetch fails, and when the metadata file holds \<^verbatim>\<open>null\<close>.
\<close>

theorem diff_exit_status:
  "(findIssueFiles d n = Some f \<and> readJson d (json f) = Inr j \<and> props j = Inr p \<and>
    readMd d (md f) = Inr lm \<and> view r n = Some g \<and>
    converts_if_present (p ''title'') \<and> converts_if_present (p ''state'') \<and>
    js_or (p ''labels'') (JArr []) = JArr ls \<and> list_all converts ls \<longrightarrow>
      (\<exists>report. diff r d n = (Inr report, [IssueView n])) \<and>
      exit_status (fst (diff r d n)) = 0) \<and>
   (findIssueFiles d n = None \<longrightarrow> exit_status (fst (diff r d n)) = 1) \<and>
   (findIssueFiles d n = Some f \<and> readJson d (json f) = Inr j \<and>
    readMd d (md f) = Inr lm \<and> view r n = None \<longrightarrow>
      exit_status (fst (diff r d n)) = 1) \<and>
   (findIssueFiles d n = Some f \<and> readJson d (json f) = Inr JNull \<and>
    readMd d (md f) = Inr lm \<and> view r n = Some g \<longrightarrow>
      diff r d n = (Inl (Uncaught TypeError), [IssueView n]) \<and>
      exit_status (fst (diff r d n)) = 1)"
proof (intro conjI impI)
  assume a: "findIssueFiles d n = Some f \<and> readJson d (json f) = Inr j \<and> props j = Inr p \<and>
    readMd d (md f) = Inr lm \<and> view r n = Some g \<and>
    converts_if_present (p ''title'') \<and> converts_if_present (p ''state'') \<and>
    js_or (p ''labels'') (JArr []) = JArr ls \<and> list_all converts ls"
  then have "\<exists>report. compare_issue p lm g = Inr report \<and>
           list_all converts (concat (map printed_values (metaDiffs report)))"
    by (intro compare_issue_converts[where ls = ls]) simp_all
  then obtain report where c: "compare_issue p lm g = Inr report"
    and pr: "print_report report = Inr ()"
    using print_report_converts by blast
  with a have d: "diff r d n = (Inr report, [IssueView n])"
    by (simp add: diff_def fetchIssue_def)
  then show "\<exists>report. diff r d n = (Inr report, [IssueView n])" by blast
  show "exit_status (fst (diff r d n)) = 0" unfolding d by simp
next
  assume "findIssueFiles d n = None"
  then show "exit_status (fst (diff r d n)) = 1" by (simp add: diff_def)
next
  assume "findIssueFiles d n = Some f \<and> readJson d (json f) = Inr j \<and>
    readMd d (md f) = Inr lm \<and> view r n = None"
  then show "exit_status (fst (diff r d n)) = 1"
    by (simp add: diff_def fetchIssue_def command_failed_def)
next
  assume a: "findIssueFiles d n = Some f \<and> readJson d (json f) = Inr JNull \<and>
    readMd d (md f) = Inr lm \<and> view r n = Some g"
  then show d: "diff r d n = (Inl (Uncaught TypeError), [IssueView n])"
    by (simp add: diff_def fetchIssue_def)
  show "exit_status (fst (diff r d n)) = 1" unfolding d by simp
qed

text \<open>
  Diff of issue 7: in sync after a pull, with differences before it, without local
  files, against a remote that fails, and with a metadata file that holds \<^verbatim>\<open>null\<close>.
\<close>

theorem diff_exit_status_witness:
  "diff example_remote example_pulled 7 =
     (Inr \<lparr> metaDiffs = [], bodyDiffers = False \<rparr>, [IssueView 7]) \<and>
   diff example_remote example_dir 7 =
     (Inr \<lparr> metaDiffs = [FieldDiff ''title'' (Some (JStr ''[CTT] Kafka'')) ''[CTT] Kafka Migration''],
            bodyDiffers = True \<rparr>, [IssueView 7]) \<and>
   exit_status (fst (diff example_remote example_pulled 7)) = 0 \<and>
   exit_status (fst (diff example_remote example_dir 7)) = 0 \<and>
   exit_status (fst (diff example_remote [] 7)) = 1 \<and>
   exit_status (fst (diff failing_remote example_dir 7)) = 1 \<and>
   diff example_remote null_dir 7 = (Inl (Uncaught TypeError), [IssueView 7])"
proof -
  let ?kvs = "[(''title'', JStr ''[CTT] Kafka''), (''state'', JStr ''open''),
               (''labels'', JArr [JStr ''bug'']), (''typ'', JStr ''migration''),
               (''body_file'', JStr ''7-kafka.md'')]"
  have f: "findIssueFiles example_dir 7 = Some example_files" by code_simp
  have rj: "readJson example_dir (json example_files) = Inr (JObj ?kvs)" by code_simp
  have pj: "props (JObj ?kvs) = Inr (map_of ?kvs)" by simp
  have rm: "readMd example_dir (md example_files) = Inr (''Old text'' @ [LF])" by code_simp
  have g: "view example_remote 7 = Some example_issue" by (simp add: example_remote_def)
  have ct: "converts_if_present (map_of ?kvs ''title'')"
    and cs: "converts_if_present (map_of ?kvs ''state'')"
    by (simp_all add: converts_if_present_def converts_def)
  have l: "js_or (map_of ?kvs ''labels'') (JArr []) = JArr [JStr ''bug'']" by code_simp
  have cl: "list_all converts [JStr ''bug'']" by (simp add: converts_def)
  have none: "findIssueFiles [] 7 = None" by code_simp
  have vd: "view failing_remote 7 = None" by (simp add: failing_remote_def)
  have fn: "findIssueFiles null_dir 7 = Some example_files" by code_simp
  have rn: "readJson null_dir (json example_files) = Inr JNull" by code_simp
  have mn: "readMd null_dir (md example_files) = Inr (''Body text'' @ [LF])" by code_simp
  have e1: "diff example_remote example_pulled 7 =
     (Inr \<lparr> metaDiffs = [], bodyDiffers = False \<rparr>, [IssueView 7])" by code_simp
  have e2: "diff example_remote example_dir 7 =
     (Inr \<lparr> metaDiffs = [FieldDiff ''title'' (Some (JStr ''[CTT] Kafka'')) ''[CTT] Kafka Migration''],
            bodyDiffers = True \<rparr>, [IssueView 7])" by code_simp
  from diff_exit_status[where d = example_dir and n = 7 and f = example_files
      and j = "JObj ?kvs" and p = "map_of ?kvs"
      and lm = "''Old text'' @ [LF]" and r = example_remote and g = example_issue
      and ls = "[JStr ''bug'']"] f rj pj rm g ct cs l cl
  have a: "exit_status (fst (diff example_remote example_dir 7)) = 0" by simp
  from diff_exit_status[where d = "[]" and n = 7 and r = example_remote] none
  have b: "exit_status (fst (diff example_remote [] 7)) = 1" by simp
  from diff_exit_status[where d = example_dir and n = 7 and f = example_files and j = "JObj ?kvs"
      and lm = "''Old text'' @ [LF]" and r = failing_remote] f rj rm vd
  have c: "exit_status (fst (diff failing_remote example_dir 7)) = 1" by simp
  from diff_exit_status[where d = null_dir and n = 7 and f = example_files
      and lm = "''Body text'' @ [LF]" and r = example_remote and g = example_issue] fn rn mn g
  have d: "diff example_remote null_dir 7 = (Inl (Uncaught TypeError), [IssueView 7])" by simp
  from e1 e2 a b c d show ?thesis by simp
qed

text \<open>
  C9 as stated fails: diff with an identifier that has no local files exits with
  status 1.
\<close>

theorem diff_no_local_files_counterexample:
  "findIssueFiles [] 7 = None \<and>
   diff example_remote [] 7 = (Inl (Exit 1 [''No local files found for issue #7'']), []) \<and>
   exit_status (fst (diff example_remote [] 7)) = 1"
  by code_simp

end
